theory Spec2Isabelle
  imports Complex_Main "HOL-Library.Monad_Syntax"
begin

section \<open>The power splitter of openconcept/components/splitter.py\<close>

text \<open>
  The component \<open>PowerSplit\<close> divides an incoming power between two outputs A and B,
  by a fraction or by a fixed amount, and reports waste heat, cost, weight and a sizing
  margin. It has four methods: \<open>initialize\<close> (the options and their defaults),
  \<open>setup\<close> (the inputs, outputs and partial derivatives it registers),
  \<open>compute\<close> (the outputs from the inputs) and \<open>compute_partials\<close> (the entries of
  the Jacobian from the inputs).

  Numbers. The arrays of the source hold 64-bit floating point numbers. Here a finite
  number is a real number and the inputs are finite. \<open>compute\<close> and
  \<open>compute_partials\<close> are modelled with exact arithmetic: their theorems say which
  expression each output is. The one operation of the component that leaves the finite
  numbers on finite operands in exact arithmetic is the division by zero, which numpy
  answers with an infinity or a NaN (and a warning), never with an exception; that
  result is the value \<open>NonFinite\<close> below. The conservation of energy relates
  several rounded outputs to each other, so for it \<open>compute\<close> is modelled a second
  time, as \<open>compute_f64\<close>, with the rounding of every operation.
\<close>

subsection \<open>Numbers and arrays\<close>

datatype float64 = Finite real | NonFinite

text \<open>numpy's true division of one float by another.\<close>

definition np_div :: "real \<Rightarrow> real \<Rightarrow> float64" where
  "np_div x y = (if y = 0 then NonFinite else Finite (x / y))"

text \<open>
  All arrays are one-dimensional. An operation of numpy that raises (operands that do
  not broadcast, an index out of range, values that do not fit the indexed places) has
  the result \<open>None\<close>; so has the lookup of a name that the input vector does not hold.
\<close>

definition np_zeros :: "nat \<Rightarrow> real list" where
  "np_zeros n = replicate n 0"

definition np_ones :: "nat \<Rightarrow> real list" where
  "np_ones n = replicate n 1"

text \<open>
  An elementwise binary operation on two arrays: equal shapes pair up, and an array of
  one element is broadcast along the other.
\<close>

definition np_binop :: "('a \<Rightarrow> 'b \<Rightarrow> 'c) \<Rightarrow> 'a list \<Rightarrow> 'b list \<Rightarrow> 'c list option" where
  "np_binop f xs ys =
     (if length xs = length ys then Some (map2 f xs ys)
      else if length xs = 1 then Some (map (f (hd xs)) ys)
      else if length ys = 1 then Some (map (\<lambda>x. f x (hd ys)) xs)
      else None)"

text \<open>\<open>np.where(cond)\<close> with one argument: the indices where the condition holds, ascending.\<close>

definition np_where :: "bool list \<Rightarrow> nat list" where
  "np_where cond = filter (\<lambda>i. cond ! i) [0..<length cond]"

text \<open>\<open>a[idx]\<close> for an index array: an index beyond the array raises IndexError.\<close>

definition np_take :: "'a list \<Rightarrow> nat list \<Rightarrow> 'a list option" where
  "np_take a idx =
     (if list_all (\<lambda>i. i < length a) idx then Some (map (\<lambda>i. a ! i) idx) else None)"

text \<open>
  \<open>a[idx] = vs\<close> for an index array: the values are stored in the order of the
  indices; a single value is broadcast to all of them.
\<close>

definition np_put :: "'a list \<Rightarrow> nat list \<Rightarrow> 'a list \<Rightarrow> 'a list option" where
  "np_put a idx vs =
     (if \<not> list_all (\<lambda>i. i < length a) idx then None
      else if length vs = length idx then Some (fold (\<lambda>(i, v) b. b[i := v]) (zip idx vs) a)
      else if length vs = 1 then Some (fold (\<lambda>i b. b[i := hd vs]) idx a)
      else None)"

subsection \<open>Rounding to float64\<close>

text \<open>
  The exact arithmetic above leaves out the rounding of every operation. For the one
  property that rounding decides, the conservation of energy, the arithmetic of the
  source is also modelled as it is: every operation on two finite numbers gives the
  float64 nearest to the exact result, ties to the even significand (IEEE 754 binary64,
  the default rounding of numpy and of Python): 53 bits of significand, results below
  \<open>2 ^ - 1022\<close> in magnitude on the grid of the subnormal numbers (multiples of
  \<open>2 ^ - 1074\<close>), and a rounded result of magnitude \<open>2 ^ 1024\<close> or more is an
  infinity. The sign of a zero is not modelled.
\<close>

definition pow2 :: "int \<Rightarrow> real" where
  "pow2 e = (if 0 \<le> e then 2 ^ nat e else 1 / 2 ^ nat (- e))"

text \<open>The exponent of the last place of the float64 numbers around \<open>x\<close>.\<close>

definition ulp_exp :: "real \<Rightarrow> int" where
  "ulp_exp x = max (\<lfloor>log 2 \<bar>x\<bar>\<rfloor> - 52) (- 1074)"

text \<open>The nearest integer, the even one of two that are equally near.\<close>

definition round_even :: "real \<Rightarrow> int" where
  "round_even q =
     (let n = \<lfloor>q\<rfloor>; r = q - of_int n
      in if r < 1 / 2 then n
         else if 1 / 2 < r then n + 1
         else if even n then n else n + 1)"

definition round64 :: "real \<Rightarrow> float64" where
  "round64 x =
     (if x = 0 then Finite 0
      else let e = ulp_exp x;
               y = of_int (round_even (x / pow2 e)) * pow2 e
           in if \<bar>y\<bar> < 2 ^ 1024 then Finite y else NonFinite)"

text \<open>
  Multiplication, subtraction and addition of float64 values. With an infinity or a NaN
  among the operands the result of these three is an infinity or a NaN again.
\<close>

fun f_mul :: "float64 \<Rightarrow> float64 \<Rightarrow> float64" where
  "f_mul (Finite x) (Finite y) = round64 (x * y)"
| "f_mul _ _ = NonFinite"

fun f_sub :: "float64 \<Rightarrow> float64 \<Rightarrow> float64" where
  "f_sub (Finite x) (Finite y) = round64 (x - y)"
| "f_sub _ _ = NonFinite"

fun f_add :: "float64 \<Rightarrow> float64 \<Rightarrow> float64" where
  "f_add (Finite x) (Finite y) = round64 (x + y)"
| "f_add _ _ = NonFinite"

text \<open>The division of one finite number by another, as \<open>np_div\<close> with the rounding.\<close>

definition f_div :: "real \<Rightarrow> real \<Rightarrow> float64" where
  "f_div x y = (if y = 0 then NonFinite else round64 (x / y))"

subsection \<open>Options: \<open>initialize\<close>\<close>

record options =
  num_nodes :: nat
  rule :: string
  efficiency :: real
  weight_inc :: real
  weight_base :: real
  cost_inc :: real
  cost_base :: real

text \<open>
  \<open>initialize\<close> declares the seven options with their defaults and restricts none of
  them. A component built with keyword options, as in
  \<open>PowerSplit(rule='fixed', efficiency=0.98)\<close>, has the options
  \<open>initialize\<lparr>rule := ''fixed'', efficiency := 0.98\<rparr>\<close>.
\<close>

definition initialize :: options where
  "initialize =
     \<lparr>num_nodes = 1, rule = ''fraction'', efficiency = 1, weight_inc = 0,
      weight_base = 0, cost_inc = 0, cost_base = 0\<rparr>"

subsection \<open>Registration: \<open>setup\<close>\<close>

datatype error = ValueError string

record input_decl =
  in_name :: string
  in_val :: "real option"
  in_units :: "string option"
  in_shape :: nat

record output_decl =
  out_name :: string
  out_units :: "string option"
  out_shape :: nat

record partial_decl =
  p_of :: string
  p_wrt :: string
  p_rows :: "nat list option"
  p_cols :: "nat list option"
  p_val :: "real list option"

text \<open>What a component has registered so far, in the order of the calls.\<close>

record component =
  comp_inputs :: "input_decl list"
  comp_outputs :: "output_decl list"
  comp_partials :: "partial_decl list"

definition new_component :: component where
  "new_component = \<lparr>comp_inputs = [], comp_outputs = [], comp_partials = []\<rparr>"

text \<open>
  \<open>add_input(name, val=..., units=..., shape=(n,))\<close>. An input or output declared
  without a shape is an array of one element (\<open>power_rating\<close>, \<open>component_cost\<close>,
  \<open>component_weight\<close>).
\<close>

definition add_input :: "string \<Rightarrow> real option \<Rightarrow> string option \<Rightarrow> nat \<Rightarrow> component \<Rightarrow> component" where
  "add_input name val units shape c =
     c\<lparr>comp_inputs := comp_inputs c @
        [\<lparr>in_name = name, in_val = val, in_units = units, in_shape = shape\<rparr>]\<rparr>"

definition add_output :: "string \<Rightarrow> string option \<Rightarrow> nat \<Rightarrow> component \<Rightarrow> component" where
  "add_output name units shape c =
     c\<lparr>comp_outputs := comp_outputs c @
        [\<lparr>out_name = name, out_units = units, out_shape = shape\<rparr>]\<rparr>"

text \<open>
  \<open>declare_partials(of, wrt, rows=..., cols=..., val=...)\<close>, where \<open>of\<close> and \<open>wrt\<close>
  may be lists of names: one declaration for every pair.
\<close>

definition declare_partials ::
  "string list \<Rightarrow> string list \<Rightarrow> nat list option \<Rightarrow> nat list option \<Rightarrow> real list option
     \<Rightarrow> component \<Rightarrow> component" where
  "declare_partials ofs wrts rows cols val c =
     c\<lparr>comp_partials := comp_partials c @
        [\<lparr>p_of = out, p_wrt = inp, p_rows = rows, p_cols = cols, p_val = val\<rparr>.
           out \<leftarrow> ofs, inp \<leftarrow> wrts]\<rparr>"

definition rule_msg :: string where
  "rule_msg = ''Specify either '' @ [CHR 0x22] @ ''fraction'' @ [CHR 0x22] @ '' or '' @
     [CHR 0x22] @ ''fixed'' @ [CHR 0x22] @ '' as power split control rule''"

text \<open>
  \<open>setup\<close> of the source is \<open>setup_comp\<close> here. It registers on the component it is given and returns
  the component as it leaves it, with the exception it raised, if any. The rule is tested
  after \<open>power_in\<close> and \<open>power_rating\<close> are registered, and before any output.
\<close>

definition setup_comp :: "options \<Rightarrow> component \<Rightarrow> component \<times> error option" where
  "setup_comp opts c0 =
    (let nn = num_nodes opts;
         c1 = add_input ''power_in'' None (Some ''W'') nn c0;
         c2 = add_input ''power_rating'' (Some 99999999) (Some ''W'') 1 c1;
         rule = rule opts
     in case (if rule = ''fraction''
                then Inr (add_input ''power_split_fraction'' (Some 0.5) None nn c2)
              else if rule = ''fixed''
                then Inr (add_input ''power_split_amount'' None (Some ''W'') nn c2)
              else Inl (ValueError rule_msg)) of
          Inl e \<Rightarrow> (c2, Some e)
        | Inr c3 \<Rightarrow>
           (let eta = efficiency opts;
                weight_inc = weight_inc opts;
                cost_inc = cost_inc opts;
                c4 = add_output ''power_out_A'' (Some ''W'') nn c3;
                c5 = add_output ''power_out_B'' (Some ''W'') nn c4;
                c6 = add_output ''heat_out'' (Some ''W'') nn c5;
                c7 = add_output ''component_cost'' (Some ''USD'') 1 c6;
                c8 = add_output ''component_weight'' (Some ''kg'') 1 c7;
                c9 = add_output ''component_sizing_margin'' None nn c8;
                c10 = (if rule = ''fraction''
                         then declare_partials [''power_out_A'', ''power_out_B'']
                                [''power_in'', ''power_split_fraction'']
                                (Some [0..<nn]) (Some [0..<nn]) None c9
                       else if rule = ''fixed''
                         then declare_partials [''power_out_A'', ''power_out_B'']
                                [''power_in'', ''power_split_amount'']
                                (Some [0..<nn]) (Some [0..<nn]) None c9
                       else c9);
                c11 = declare_partials [''heat_out''] [''power_in'']
                        (Some [0..<nn]) (Some [0..<nn])
                        (Some (map (\<lambda>x. (1 - eta) * x) (np_ones nn))) c10;
                c12 = declare_partials [''component_cost''] [''power_rating'']
                        None None (Some [cost_inc]) c11;
                c13 = declare_partials [''component_weight''] [''power_rating'']
                        None None (Some [weight_inc]) c12;
                c14 = declare_partials [''component_sizing_margin''] [''power_in'']
                        (Some [0..<nn]) (Some [0..<nn]) None c13;
                c15 = declare_partials [''component_sizing_margin''] [''power_rating'']
                        None None None c14
            in (c15, None)))"

subsection \<open>Vectors of the framework\<close>

text \<open>
  The input vector maps the name of every registered input to its array, the output
  vector does so for the outputs, and the Jacobian maps a pair (output, input) to the
  array of that block's entries. The framework hands \<open>compute\<close> and
  \<open>compute_partials\<close> an input vector that holds every registered input in its
  registered shape.
\<close>

type_synonym inputs = "string \<rightharpoonup> real list"
type_synonym outputs = "string \<rightharpoonup> float64 list"
type_synonym jacobian = "string \<times> string \<rightharpoonup> float64 list"

definition conforms :: "component \<Rightarrow> inputs \<Rightarrow> bool" where
  "conforms c inputs =
     list_all (\<lambda>d. case inputs (in_name d) of
                      None \<Rightarrow> False
                    | Some v \<Rightarrow> length v = in_shape d) (comp_inputs c)"

text \<open>The value at one node of a named array of a vector, if there is one.\<close>

definition node :: "('k \<rightharpoonup> 'v list) \<Rightarrow> 'k \<Rightarrow> nat \<Rightarrow> 'v option" where
  "node vec name k =
     (case vec name of
        None \<Rightarrow> None
      | Some v \<Rightarrow> if k < length v then Some (v ! k) else None)"

subsection \<open>Evaluation: \<open>compute\<close>\<close>

text \<open>
  \<open>compute\<close> writes into the output vector it is given. Under a rule that is
  neither \<open>fraction\<close> nor \<open>fixed\<close> it leaves \<open>power_out_A\<close> and \<open>power_out_B\<close> as
  they were.
\<close>

definition compute :: "options \<Rightarrow> inputs \<Rightarrow> outputs \<Rightarrow> outputs option" where
  "compute opts inputs outputs = do {
     let nn = num_nodes opts;
     let rule = rule opts;
     let eta = efficiency opts;
     let weight_inc = weight_inc opts;
     let weight_base = weight_base opts;
     let cost_inc = cost_inc opts;
     let cost_base = cost_base opts;
     outputs \<leftarrow>
       (if rule = ''fraction'' then do {
          power_in \<leftarrow> inputs ''power_in'';
          power_split_fraction \<leftarrow> inputs ''power_split_fraction'';
          a \<leftarrow> np_binop (*) power_in power_split_fraction;
          let outputs = outputs(''power_out_A'' \<mapsto> map Finite (map (\<lambda>x. x * eta) a));
          power_in \<leftarrow> inputs ''power_in'';
          power_split_fraction \<leftarrow> inputs ''power_split_fraction'';
          b \<leftarrow> np_binop (*) power_in (map (\<lambda>x. 1 - x) power_split_fraction);
          Some (outputs(''power_out_B'' \<mapsto> map Finite (map (\<lambda>x. x * eta) b)))
        }
        else if rule = ''fixed'' then do {
          power_in \<leftarrow> inputs ''power_in'';
          power_split_amount \<leftarrow> inputs ''power_split_amount'';
          not_enough \<leftarrow> np_binop (<) power_in power_split_amount;
          let not_enough_idx = np_where not_enough;
          let po_A = np_zeros nn;
          let po_B = np_zeros nn;
          pin_ne \<leftarrow> np_take power_in not_enough_idx;
          po_A \<leftarrow> np_put po_A not_enough_idx (map (\<lambda>x. x * eta) pin_ne);
          zeros_ne \<leftarrow> np_take (np_zeros nn) not_enough_idx;
          po_B \<leftarrow> np_put po_B not_enough_idx zeros_ne;
          enough \<leftarrow> np_binop (\<ge>) power_in power_split_amount;
          let enough_idx = np_where enough;
          psa_e \<leftarrow> np_take power_split_amount enough_idx;
          po_A \<leftarrow> np_put po_A enough_idx (map (\<lambda>x. x * eta) psa_e);
          pin_e \<leftarrow> np_take power_in enough_idx;
          psa_e \<leftarrow> np_take power_split_amount enough_idx;
          rest \<leftarrow> np_binop (-) pin_e psa_e;
          po_B \<leftarrow> np_put po_B enough_idx (map (\<lambda>x. x * eta) rest);
          Some (outputs(''power_out_A'' \<mapsto> map Finite po_A,
                        ''power_out_B'' \<mapsto> map Finite po_B))
        }
        else Some outputs);
     power_in \<leftarrow> inputs ''power_in'';
     let outputs = outputs(''heat_out'' \<mapsto> map Finite (map (\<lambda>x. x * (1 - eta)) power_in));
     power_rating \<leftarrow> inputs ''power_rating'';
     let outputs = outputs(''component_cost'' \<mapsto>
                     map Finite (map (\<lambda>x. x * cost_inc + cost_base) power_rating));
     power_rating \<leftarrow> inputs ''power_rating'';
     let outputs = outputs(''component_weight'' \<mapsto>
                     map Finite (map (\<lambda>x. x * weight_inc + weight_base) power_rating));
     power_in \<leftarrow> inputs ''power_in'';
     power_rating \<leftarrow> inputs ''power_rating'';
     margin \<leftarrow> np_binop np_div power_in power_rating;
     Some (outputs(''component_sizing_margin'' \<mapsto> margin))
   }"

subsection \<open>Linearisation: \<open>compute_partials\<close>\<close>

text \<open>
  \<open>compute_partials\<close> writes into the Jacobian it is given and reads nothing but
  the options and the input vector.
\<close>

definition compute_partials :: "options \<Rightarrow> inputs \<Rightarrow> jacobian \<Rightarrow> jacobian option" where
  "compute_partials opts inputs J = do {
     let nn = num_nodes opts;
     let rule = rule opts;
     let eta = efficiency opts;
     J \<leftarrow>
       (if rule = ''fraction'' then do {
          power_split_fraction \<leftarrow> inputs ''power_split_fraction'';
          let J = J((''power_out_A'', ''power_in'') \<mapsto>
                      map Finite (map (\<lambda>x. x * eta) power_split_fraction));
          power_in \<leftarrow> inputs ''power_in'';
          let J = J((''power_out_A'', ''power_split_fraction'') \<mapsto>
                      map Finite (map (\<lambda>x. x * eta) power_in));
          power_split_fraction \<leftarrow> inputs ''power_split_fraction'';
          let J = J((''power_out_B'', ''power_in'') \<mapsto>
                      map Finite (map (\<lambda>x. x * eta) (map (\<lambda>x. 1 - x) power_split_fraction)));
          power_in \<leftarrow> inputs ''power_in'';
          Some (J((''power_out_B'', ''power_split_fraction'') \<mapsto>
                      map Finite (map (\<lambda>x. x * eta) (map uminus power_in))))
        }
        else if rule = ''fixed'' then do {
          power_in \<leftarrow> inputs ''power_in'';
          power_split_amount \<leftarrow> inputs ''power_split_amount'';
          not_enough \<leftarrow> np_binop (<) power_in power_split_amount;
          let not_enough_idx = np_where not_enough;
          enough \<leftarrow> np_binop (\<ge>) power_in power_split_amount;
          let enough_idx = np_where enough;
          let Jpo_A_pi = np_zeros nn;
          let Jpo_A_ps = np_zeros nn;
          let Jpo_B_pi = np_zeros nn;
          let Jpo_B_ps = np_zeros nn;
          ones_ne \<leftarrow> np_take (np_ones nn) not_enough_idx;
          Jpo_A_pi \<leftarrow> np_put Jpo_A_pi not_enough_idx (map (\<lambda>x. eta * x) ones_ne);
          zeros_ne \<leftarrow> np_take (np_zeros nn) not_enough_idx;
          Jpo_A_ps \<leftarrow> np_put Jpo_A_ps not_enough_idx zeros_ne;
          zeros_ne \<leftarrow> np_take (np_zeros nn) not_enough_idx;
          Jpo_B_pi \<leftarrow> np_put Jpo_B_pi not_enough_idx zeros_ne;
          zeros_ne \<leftarrow> np_take (np_zeros nn) not_enough_idx;
          Jpo_B_ps \<leftarrow> np_put Jpo_B_ps not_enough_idx zeros_ne;
          ones_e \<leftarrow> np_take (np_ones nn) enough_idx;
          Jpo_A_ps \<leftarrow> np_put Jpo_A_ps enough_idx (map (\<lambda>x. eta * x) ones_e);
          zeros_e \<leftarrow> np_take (np_zeros nn) enough_idx;
          Jpo_A_pi \<leftarrow> np_put Jpo_A_pi enough_idx zeros_e;
          ones_e \<leftarrow> np_take (np_ones nn) enough_idx;
          Jpo_B_ps \<leftarrow> np_put Jpo_B_ps enough_idx (map (\<lambda>x. (- eta) * x) ones_e);
          ones_e \<leftarrow> np_take (np_ones nn) enough_idx;
          Jpo_B_pi \<leftarrow> np_put Jpo_B_pi enough_idx (map (\<lambda>x. eta * x) ones_e);
          Some (J((''power_out_A'', ''power_in'') \<mapsto> map Finite Jpo_A_pi,
                  (''power_out_A'', ''power_split_amount'') \<mapsto> map Finite Jpo_A_ps,
                  (''power_out_B'', ''power_in'') \<mapsto> map Finite Jpo_B_pi,
                  (''power_out_B'', ''power_split_amount'') \<mapsto> map Finite Jpo_B_ps))
        }
        else Some J);
     power_rating \<leftarrow> inputs ''power_rating'';
     let J = J((''component_sizing_margin'', ''power_in'') \<mapsto> map (np_div 1) power_rating);
     power_in \<leftarrow> inputs ''power_in'';
     power_rating \<leftarrow> inputs ''power_rating'';
     dm \<leftarrow> np_binop np_div (map uminus power_in) (map (\<lambda>x. x ^ 2) power_rating);
     Some (J((''component_sizing_margin'', ''power_rating'') \<mapsto> dm))
   }"

subsection \<open>Evaluation with rounding: \<open>compute\<close> in float64 arithmetic\<close>

text \<open>
  The same method, line by line, with every arithmetic operation rounded. The inputs
  and the options are finite numbers; the comparisons of the fixed rule are between
  inputs and are exact.
\<close>

definition compute_f64 :: "options \<Rightarrow> inputs \<Rightarrow> outputs \<Rightarrow> outputs option" where
  "compute_f64 opts inputs outputs = do {
     let nn = num_nodes opts;
     let rule = rule opts;
     let eta = efficiency opts;
     let weight_inc = weight_inc opts;
     let weight_base = weight_base opts;
     let cost_inc = cost_inc opts;
     let cost_base = cost_base opts;
     outputs \<leftarrow>
       (if rule = ''fraction'' then do {
          power_in \<leftarrow> inputs ''power_in'';
          power_split_fraction \<leftarrow> inputs ''power_split_fraction'';
          a \<leftarrow> np_binop (\<lambda>x y. f_mul (Finite x) (Finite y)) power_in power_split_fraction;
          let outputs = outputs(''power_out_A'' \<mapsto> map (\<lambda>x. f_mul x (Finite eta)) a);
          power_in \<leftarrow> inputs ''power_in'';
          power_split_fraction \<leftarrow> inputs ''power_split_fraction'';
          b \<leftarrow> np_binop (\<lambda>x y. f_mul (Finite x) y) power_in
                 (map (\<lambda>x. f_sub (Finite 1) (Finite x)) power_split_fraction);
          Some (outputs(''power_out_B'' \<mapsto> map (\<lambda>x. f_mul x (Finite eta)) b))
        }
        else if rule = ''fixed'' then do {
          power_in \<leftarrow> inputs ''power_in'';
          power_split_amount \<leftarrow> inputs ''power_split_amount'';
          not_enough \<leftarrow> np_binop (<) power_in power_split_amount;
          let not_enough_idx = np_where not_enough;
          let po_A = map Finite (np_zeros nn);
          let po_B = map Finite (np_zeros nn);
          pin_ne \<leftarrow> np_take power_in not_enough_idx;
          po_A \<leftarrow> np_put po_A not_enough_idx (map (\<lambda>x. f_mul (Finite x) (Finite eta)) pin_ne);
          zeros_ne \<leftarrow> np_take (np_zeros nn) not_enough_idx;
          po_B \<leftarrow> np_put po_B not_enough_idx (map Finite zeros_ne);
          enough \<leftarrow> np_binop (\<ge>) power_in power_split_amount;
          let enough_idx = np_where enough;
          psa_e \<leftarrow> np_take power_split_amount enough_idx;
          po_A \<leftarrow> np_put po_A enough_idx (map (\<lambda>x. f_mul (Finite x) (Finite eta)) psa_e);
          pin_e \<leftarrow> np_take power_in enough_idx;
          psa_e \<leftarrow> np_take power_split_amount enough_idx;
          rest \<leftarrow> np_binop (\<lambda>x y. f_sub (Finite x) (Finite y)) pin_e psa_e;
          po_B \<leftarrow> np_put po_B enough_idx (map (\<lambda>x. f_mul x (Finite eta)) rest);
          Some (outputs(''power_out_A'' \<mapsto> po_A, ''power_out_B'' \<mapsto> po_B))
        }
        else Some outputs);
     power_in \<leftarrow> inputs ''power_in'';
     let outputs = outputs(''heat_out'' \<mapsto>
                     map (\<lambda>x. f_mul (Finite x) (f_sub (Finite 1) (Finite eta))) power_in);
     power_rating \<leftarrow> inputs ''power_rating'';
     let outputs = outputs(''component_cost'' \<mapsto>
                     map (\<lambda>x. f_add (f_mul (Finite x) (Finite cost_inc)) (Finite cost_base))
                       power_rating);
     power_rating \<leftarrow> inputs ''power_rating'';
     let outputs = outputs(''component_weight'' \<mapsto>
                     map (\<lambda>x. f_add (f_mul (Finite x) (Finite weight_inc)) (Finite weight_base))
                       power_rating);
     power_in \<leftarrow> inputs ''power_in'';
     power_rating \<leftarrow> inputs ''power_rating'';
     margin \<leftarrow> np_binop f_div power_in power_rating;
     Some (outputs(''component_sizing_margin'' \<mapsto> margin))
   }"

subsection \<open>The call order of the driver\<close>

text \<open>
  The script at the end of the file builds the component, then calls \<open>prob.setup()\<close>,
  which runs \<open>setup\<close> of the component, and only then \<open>prob.run_model()\<close>, which runs
  \<open>compute\<close>. An exception of \<open>setup\<close> ends the run there.
\<close>

definition setup_run_model :: "options \<Rightarrow> inputs \<Rightarrow> outputs \<Rightarrow> error + outputs option" where
  "setup_run_model opts inputs outputs =
     (case setup_comp opts new_component of
        (c, Some e) \<Rightarrow> Inl e
      | (c, None) \<Rightarrow> Inr (compute opts inputs outputs))"

section \<open>Properties\<close>

subsection \<open>Indexed reads and writes\<close>

lemma fold_put_length: "length (fold (\<lambda>i b. b[i := g i]) idx a) = length a"
  by (induction idx arbitrary: a) auto

lemma fold_put_nth:
  "k < length a \<Longrightarrow> (fold (\<lambda>i b. b[i := g i]) idx a) ! k = (if k \<in> set idx then g k else a ! k)"
proof (induction idx arbitrary: a)
  case Nil
  then show ?case by simp
next
  case (Cons i idx)
  then show ?case by (auto simp: nth_list_update)
qed

lemma fold_zip_map:
  "fold (\<lambda>(i, v) b. b[i := v]) (zip idx (map g idx)) a = fold (\<lambda>i b. b[i := g i]) idx a"
  by (induction idx arbitrary: a) auto

lemma set_np_where: "set (np_where c) = {i. i < length c \<and> c ! i}"
  by (auto simp: np_where_def)

lemma np_take_where:
  "length x = length c \<Longrightarrow> np_take x (np_where c) = Some (map (\<lambda>i. x ! i) (np_where c))"
  by (simp add: np_take_def list_all_iff set_np_where)

lemma np_put_where:
  assumes "length a = length c"
  shows "np_put a (np_where c) (map g (np_where c)) =
           Some (map (\<lambda>k. if c ! k then g k else a ! k) [0..<length a])"
proof -
  have "fold (\<lambda>i b. b[i := g i]) (np_where c) a = map (\<lambda>k. if c ! k then g k else a ! k) [0..<length a]"
    using assms by (intro nth_equalityI) (auto simp: fold_put_length fold_put_nth set_np_where)
  then show ?thesis
    using assms by (simp add: np_put_def list_all_iff set_np_where fold_zip_map)
qed

lemma np_binop_same:
  "length xs = length ys \<Longrightarrow> np_binop f xs ys = Some (map2 f xs ys)"
  by (simp add: np_binop_def)

lemma np_binop_scalar:
  "np_binop f xs [y] = Some (map (\<lambda>x. f x y) xs)"
  by (cases xs rule: list.exhaust; cases "tl xs") (auto simp: np_binop_def)

lemma map2_map_map: "map2 f (map g xs) (map h xs) = map (\<lambda>x. f (g x) (h x)) xs"
  by (induction xs) auto


subsection \<open>The results of \<open>compute\<close> and \<open>compute_partials\<close> in closed form\<close>

lemma np_zeros_nth: "k < n \<Longrightarrow> np_zeros n ! k = 0" and np_zeros_length: "length (np_zeros n) = n"
  by (simp_all add: np_zeros_def)

lemma np_ones_nth: "k < n \<Longrightarrow> np_ones n ! k = 1" and np_ones_length: "length (np_ones n) = n"
  by (simp_all add: np_ones_def)

lemma compute_fixed:
  assumes r: "rule opts = ''fixed''"
    and pin: "inputs ''power_in'' = Some pin" "length pin = num_nodes opts"
    and psa: "inputs ''power_split_amount'' = Some psa" "length psa = num_nodes opts"
    and pr: "inputs ''power_rating'' = Some [pr]"
  shows "compute opts inputs outputs =
     Some (outputs(
       ''power_out_A'' \<mapsto> map Finite (map2 (\<lambda>p s. if p < s then p * efficiency opts else s * efficiency opts) pin psa),
       ''power_out_B'' \<mapsto> map Finite (map2 (\<lambda>p s. if p < s then 0 else (p - s) * efficiency opts) pin psa),
       ''heat_out'' \<mapsto> map Finite (map (\<lambda>x. x * (1 - efficiency opts)) pin),
       ''component_cost'' \<mapsto> [Finite (pr * cost_inc opts + cost_base opts)],
       ''component_weight'' \<mapsto> [Finite (pr * weight_inc opts + weight_base opts)],
       ''component_sizing_margin'' \<mapsto> map (\<lambda>p. np_div p pr) pin))"
proof -
  define n where "n = num_nodes opts"
  let ?eta = "efficiency opts"
  define lt where "lt = map2 (<) pin psa"
  define ge where "ge = map2 (\<ge>) pin psa"
  have len: "length pin = n" "length psa = n" "length lt = n" "length ge = n"
    using pin psa by (simp_all add: n_def lt_def ge_def)
  have ltk: "\<And>k. k < n \<Longrightarrow> lt ! k = (pin ! k < psa ! k)"
    and gek: "\<And>k. k < n \<Longrightarrow> ge ! k = (\<not> pin ! k < psa ! k)"
    using len by (auto simp: lt_def ge_def)
  have A1: "np_put (np_zeros n) (np_where lt) (map (\<lambda>x. x * ?eta) (map (\<lambda>i. pin ! i) (np_where lt)))
      = Some (map (\<lambda>k. if lt ! k then pin ! k * ?eta else 0) [0..<n])"
    using np_put_where[of "np_zeros n" lt "\<lambda>i. pin ! i * ?eta"] len
    by (simp add: np_zeros_length np_zeros_nth comp_def cong: map_cong)
  have B1: "np_put (np_zeros n) (np_where lt) (map (\<lambda>i. np_zeros n ! i) (np_where lt))
      = Some (np_zeros n)"
    using np_put_where[of "np_zeros n" lt "\<lambda>i. np_zeros n ! i"] len map_nth[of "np_zeros n"]
    by (simp add: np_zeros_length cong: if_cong)
  have A2: "np_put (map (\<lambda>k. if lt ! k then pin ! k * ?eta else 0) [0..<n]) (np_where ge)
       (map (\<lambda>x. x * ?eta) (map (\<lambda>i. psa ! i) (np_where ge)))
      = Some (map2 (\<lambda>p s. if p < s then p * ?eta else s * ?eta) pin psa)"
  proof -
    have "map (\<lambda>k. if ge ! k then psa ! k * ?eta else (map (\<lambda>k. if lt ! k then pin ! k * ?eta else 0) [0..<n]) ! k) [0..<n]
       = map2 (\<lambda>p s. if p < s then p * ?eta else s * ?eta) pin psa"
      using len by (intro nth_equalityI) (auto simp: ltk gek)
    then show ?thesis
      using np_put_where[of "map (\<lambda>k. if lt ! k then pin ! k * ?eta else 0) [0..<n]" ge "\<lambda>i. psa ! i * ?eta"] len
      by (simp add: comp_def)
  qed
  have B2: "np_put (np_zeros n) (np_where ge)
       (map (\<lambda>x. x * ?eta) (map2 (-) (map (\<lambda>i. pin ! i) (np_where ge)) (map (\<lambda>i. psa ! i) (np_where ge))))
      = Some (map2 (\<lambda>p s. if p < s then 0 else (p - s) * ?eta) pin psa)"
  proof -
    have "map (\<lambda>k. if ge ! k then (pin ! k - psa ! k) * ?eta else np_zeros n ! k) [0..<n]
       = map2 (\<lambda>p s. if p < s then 0 else (p - s) * ?eta) pin psa"
      using len by (intro nth_equalityI) (auto simp: ltk gek np_zeros_nth)
    then show ?thesis
      using np_put_where[of "np_zeros n" ge "\<lambda>i. (pin ! i - psa ! i) * ?eta"] len
      by (simp add: comp_def map2_map_map np_zeros_length)
  qed
  show ?thesis
    unfolding compute_def
    using r pin psa pr len A1 B1 A2 B2
    by (simp add: Let_def np_binop_same np_binop_scalar np_take_where np_zeros_length
        lt_def[symmetric] ge_def[symmetric] n_def[symmetric])
qed


lemma compute_fraction:
  assumes r: "rule opts = ''fraction''"
    and pin: "inputs ''power_in'' = Some pin" "length pin = num_nodes opts"
    and psf: "inputs ''power_split_fraction'' = Some psf" "length psf = num_nodes opts"
    and pr: "inputs ''power_rating'' = Some [pr]"
  shows "compute opts inputs outputs =
     Some (outputs(
       ''power_out_A'' \<mapsto> map Finite (map2 (\<lambda>p f. p * f * efficiency opts) pin psf),
       ''power_out_B'' \<mapsto> map Finite (map2 (\<lambda>p f. p * (1 - f) * efficiency opts) pin psf),
       ''heat_out'' \<mapsto> map Finite (map (\<lambda>x. x * (1 - efficiency opts)) pin),
       ''component_cost'' \<mapsto> [Finite (pr * cost_inc opts + cost_base opts)],
       ''component_weight'' \<mapsto> [Finite (pr * weight_inc opts + weight_base opts)],
       ''component_sizing_margin'' \<mapsto> map (\<lambda>p. np_div p pr) pin))"
proof -
  have A: "map Finite (map (\<lambda>x. x * efficiency opts) (map2 (*) pin psf))
             = map Finite (map2 (\<lambda>p f. p * f * efficiency opts) pin psf)"
    using pin psf by (intro nth_equalityI) auto
  have B: "map Finite (map (\<lambda>x. x * efficiency opts) (map2 (*) pin (map (\<lambda>x. 1 - x) psf)))
             = map Finite (map2 (\<lambda>p f. p * (1 - f) * efficiency opts) pin psf)"
    using pin psf by (intro nth_equalityI) auto
  have raw: "compute opts inputs outputs =
     Some (outputs(
       ''power_out_A'' \<mapsto> map Finite (map (\<lambda>x. x * efficiency opts) (map2 (*) pin psf)),
       ''power_out_B'' \<mapsto> map Finite (map (\<lambda>x. x * efficiency opts) (map2 (*) pin (map (\<lambda>x. 1 - x) psf))),
       ''heat_out'' \<mapsto> map Finite (map (\<lambda>x. x * (1 - efficiency opts)) pin),
       ''component_cost'' \<mapsto> [Finite (pr * cost_inc opts + cost_base opts)],
       ''component_weight'' \<mapsto> [Finite (pr * weight_inc opts + weight_base opts)],
       ''component_sizing_margin'' \<mapsto> map (\<lambda>p. np_div p pr) pin))"
    unfolding compute_def
    using r pin psf pr
    by (simp add: Let_def np_binop_same np_binop_scalar comp_def)
  show ?thesis
    unfolding raw A B by (rule refl)
qed

lemma partials_fraction:
  assumes r: "rule opts = ''fraction''"
    and pin: "inputs ''power_in'' = Some pin"
    and psf: "inputs ''power_split_fraction'' = Some psf"
    and pr: "inputs ''power_rating'' = Some [pr]"
  shows "compute_partials opts inputs J =
     Some (J(
       (''power_out_A'', ''power_in'') \<mapsto> map Finite (map (\<lambda>f. f * efficiency opts) psf),
       (''power_out_A'', ''power_split_fraction'') \<mapsto> map Finite (map (\<lambda>p. p * efficiency opts) pin),
       (''power_out_B'', ''power_in'') \<mapsto> map Finite (map (\<lambda>f. (1 - f) * efficiency opts) psf),
       (''power_out_B'', ''power_split_fraction'') \<mapsto> map Finite (map (\<lambda>p. - p * efficiency opts) pin),
       (''component_sizing_margin'', ''power_in'') \<mapsto> [np_div 1 pr],
       (''component_sizing_margin'', ''power_rating'') \<mapsto> map (\<lambda>p. np_div (- p) (pr ^ 2)) pin))"
  unfolding compute_partials_def
  using r pin psf pr
  by (simp add: Let_def np_binop_scalar comp_def)

lemma partials_fixed:
  assumes r: "rule opts = ''fixed''"
    and pin: "inputs ''power_in'' = Some pin" "length pin = num_nodes opts"
    and psa: "inputs ''power_split_amount'' = Some psa" "length psa = num_nodes opts"
    and pr: "inputs ''power_rating'' = Some [pr]"
  shows "compute_partials opts inputs J =
     Some (J(
       (''power_out_A'', ''power_in'') \<mapsto> map Finite (map2 (\<lambda>p s. if p < s then efficiency opts else 0) pin psa),
       (''power_out_A'', ''power_split_amount'') \<mapsto> map Finite (map2 (\<lambda>p s. if p < s then 0 else efficiency opts) pin psa),
       (''power_out_B'', ''power_in'') \<mapsto> map Finite (map2 (\<lambda>p s. if p < s then 0 else efficiency opts) pin psa),
       (''power_out_B'', ''power_split_amount'') \<mapsto> map Finite (map2 (\<lambda>p s. if p < s then 0 else - efficiency opts) pin psa),
       (''component_sizing_margin'', ''power_in'') \<mapsto> [np_div 1 pr],
       (''component_sizing_margin'', ''power_rating'') \<mapsto> map (\<lambda>p. np_div (- p) (pr ^ 2)) pin))"
proof -
  define n where "n = num_nodes opts"
  let ?eta = "efficiency opts"
  define lt where "lt = map2 (<) pin psa"
  define ge where "ge = map2 (\<ge>) pin psa"
  have len: "length pin = n" "length psa = n" "length lt = n" "length ge = n"
    using pin psa by (simp_all add: n_def lt_def ge_def)
  have ltk: "\<And>k. k < n \<Longrightarrow> lt ! k = (pin ! k < psa ! k)"
    and gek: "\<And>k. k < n \<Longrightarrow> ge ! k = (\<not> pin ! k < psa ! k)"
    using len by (auto simp: lt_def ge_def)
  txt \<open>the four assignments at the nodes without enough power\<close>
  have ne1: "np_put (np_zeros n) (np_where lt) (map (\<lambda>x. ?eta * x) (map (\<lambda>i. np_ones n ! i) (np_where lt)))
      = Some (map (\<lambda>k. if lt ! k then ?eta else 0) [0..<n])"
  proof -
    have "map (\<lambda>k. if lt ! k then ?eta * np_ones n ! k else np_zeros n ! k) [0..<n]
        = map (\<lambda>k. if lt ! k then ?eta else 0) [0..<n]"
      by (intro nth_equalityI) (auto simp: np_zeros_nth np_ones_nth)
    then show ?thesis
      using np_put_where[of "np_zeros n" lt "\<lambda>i. ?eta * np_ones n ! i"] len
      by (simp add: np_zeros_length comp_def)
  qed
  have ne0: "np_put (np_zeros n) (np_where lt) (map (\<lambda>i. np_zeros n ! i) (np_where lt))
      = Some (np_zeros n)"
    using np_put_where[of "np_zeros n" lt "\<lambda>i. np_zeros n ! i"] len map_nth[of "np_zeros n"]
    by (simp add: np_zeros_length cong: if_cong)
  txt \<open>the four assignments at the nodes with enough power\<close>
  have e_A_ps: "np_put (np_zeros n) (np_where ge) (map (\<lambda>x. ?eta * x) (map (\<lambda>i. np_ones n ! i) (np_where ge)))
      = Some (map2 (\<lambda>p s. if p < s then 0 else ?eta) pin psa)"
  proof -
    have "map (\<lambda>k. if ge ! k then ?eta * np_ones n ! k else np_zeros n ! k) [0..<n]
        = map2 (\<lambda>p s. if p < s then 0 else ?eta) pin psa"
      using len by (intro nth_equalityI) (auto simp: np_zeros_nth np_ones_nth ltk gek)
    then show ?thesis
      using np_put_where[of "np_zeros n" ge "\<lambda>i. ?eta * np_ones n ! i"] len
      by (simp add: np_zeros_length comp_def)
  qed
  have e_A_pi: "np_put (map (\<lambda>k. if lt ! k then ?eta else 0) [0..<n]) (np_where ge)
        (map (\<lambda>i. np_zeros n ! i) (np_where ge))
      = Some (map2 (\<lambda>p s. if p < s then ?eta else 0) pin psa)"
  proof -
    have "map (\<lambda>k. if ge ! k then np_zeros n ! k else (map (\<lambda>k. if lt ! k then ?eta else 0) [0..<n]) ! k) [0..<n]
        = map2 (\<lambda>p s. if p < s then ?eta else 0) pin psa"
      using len by (intro nth_equalityI) (auto simp: np_zeros_nth ltk gek)
    then show ?thesis
      using np_put_where[of "map (\<lambda>k. if lt ! k then ?eta else 0) [0..<n]" ge "\<lambda>i. np_zeros n ! i"] len
      by simp
  qed
  have e_B_ps: "np_put (np_zeros n) (np_where ge) (map (\<lambda>x. (- ?eta) * x) (map (\<lambda>i. np_ones n ! i) (np_where ge)))
      = Some (map2 (\<lambda>p s. if p < s then 0 else - ?eta) pin psa)"
  proof -
    have "map (\<lambda>k. if ge ! k then (- ?eta) * np_ones n ! k else np_zeros n ! k) [0..<n]
        = map2 (\<lambda>p s. if p < s then 0 else - ?eta) pin psa"
      using len by (intro nth_equalityI) (auto simp: np_zeros_nth np_ones_nth ltk gek)
    then show ?thesis
      using np_put_where[of "np_zeros n" ge "\<lambda>i. (- ?eta) * np_ones n ! i"] len
      by (simp add: np_zeros_length comp_def)
  qed
  show ?thesis
    unfolding compute_partials_def
    using r pin psa pr len ne1 ne0 e_A_ps e_A_pi e_B_ps
    by (simp add: Let_def np_binop_same np_binop_scalar np_take_where np_zeros_length np_ones_length
        lt_def[symmetric] ge_def[symmetric] n_def[symmetric] comp_def)
qed

subsection \<open>Input vectors that conform to the registration\<close>

lemma setup_inputs:
  "comp_inputs (fst (setup_comp opts new_component)) =
     [\<lparr>in_name = ''power_in'', in_val = None, in_units = Some ''W'', in_shape = num_nodes opts\<rparr>,
      \<lparr>in_name = ''power_rating'', in_val = Some 99999999, in_units = Some ''W'', in_shape = 1\<rparr>] @
     (if rule opts = ''fraction''
        then [\<lparr>in_name = ''power_split_fraction'', in_val = Some 0.5, in_units = None, in_shape = num_nodes opts\<rparr>]
      else if rule opts = ''fixed''
        then [\<lparr>in_name = ''power_split_amount'', in_val = None, in_units = Some ''W'', in_shape = num_nodes opts\<rparr>]
      else [])"
  by (simp add: setup_comp_def Let_def add_input_def add_output_def declare_partials_def new_component_def)

lemma length_one: "length v = Suc 0 \<Longrightarrow> \<exists>x. v = [x]"
  by (cases v) auto

lemma conforms_common:
  assumes "conforms (fst (setup_comp opts new_component)) inputs"
  shows "\<exists>pin pr. inputs ''power_in'' = Some pin \<and> length pin = num_nodes opts \<and>
           inputs ''power_rating'' = Some [pr]"
  using assms
  by (auto simp: conforms_def setup_inputs split: option.splits dest: length_one)

lemma conforms_fraction:
  assumes "conforms (fst (setup_comp opts new_component)) inputs" "rule opts = ''fraction''"
  shows "\<exists>psf. inputs ''power_split_fraction'' = Some psf \<and> length psf = num_nodes opts"
  using assms
  by (auto simp: conforms_def setup_inputs split: option.splits)

lemma conforms_fixed:
  assumes "conforms (fst (setup_comp opts new_component)) inputs" "rule opts = ''fixed''"
  shows "\<exists>psa. inputs ''power_split_amount'' = Some psa \<and> length psa = num_nodes opts"
  using assms
  by (auto simp: conforms_def setup_inputs split: option.splits)


lemma node_upd:
  "node (m(a \<mapsto> v)) b k = (if b = a then (if k < length v then Some (v ! k) else None) else node m b k)"
  by (simp add: node_def)

subsection \<open>Energy conservation in exact arithmetic\<close>

text \<open>
  With exact arithmetic the three outputs sum to the input, under either rule, for any
  efficiency and any input vector of the registered shape. With the rounding of the
  source the sum is only near the input, and only for an efficiency and a split within
  their ranges: see the last section.
\<close>

lemma conservation_exact:
  assumes rule: "rule opts = ''fraction'' \<or> rule opts = ''fixed''"
    and conf: "conforms (fst (setup_comp opts new_component)) inputs"
    and pin: "inputs ''power_in'' = Some power_in"
    and k: "k < num_nodes opts"
  shows "\<exists>outputs' a b h.
           compute opts inputs outputs = Some outputs' \<and>
           node outputs' ''power_out_A'' k = Some (Finite a) \<and>
           node outputs' ''power_out_B'' k = Some (Finite b) \<and>
           node outputs' ''heat_out'' k = Some (Finite h) \<and>
           a + b + h = power_in ! k"
proof -
  from conforms_common[OF conf] pin obtain pr
    where len: "length power_in = num_nodes opts" and pr: "inputs ''power_rating'' = Some [pr]"
    by auto
  from rule show ?thesis
  proof
    assume fr: "rule opts = ''fraction''"
    from conforms_fraction[OF conf fr] obtain psf
      where psf: "inputs ''power_split_fraction'' = Some psf" "length psf = num_nodes opts"
      by auto
    show ?thesis
      using k len psf(2)
      by (simp add: compute_fraction[OF fr pin len psf pr] node_upd; simp add: algebra_simps)
  next
    assume fx: "rule opts = ''fixed''"
    from conforms_fixed[OF conf fx] obtain psa
      where psa: "inputs ''power_split_amount'' = Some psa" "length psa = num_nodes opts"
      by auto
    show ?thesis
      using k len psa(2)
      by (simp add: compute_fixed[OF fx pin len psa pr] node_upd; simp add: algebra_simps)
  qed
qed

subsection \<open>The fixed-amount rule\<close>

text \<open>
  Claim C2. Under the rule \<open>fixed\<close>, \<open>compute\<close> returns without an exception, and
  at every node: where \<open>power_in < power_split_amount\<close>, \<open>power_out_A\<close> is
  \<open>power_in * eta\<close> and \<open>power_out_B\<close> is 0; elsewhere, so also where the two are equal,
  \<open>power_out_A\<close> is \<open>power_split_amount * eta\<close> and \<open>power_out_B\<close> is
  \<open>(power_in - power_split_amount) * eta\<close>. The witness is the saturated case of the
  specification: 50 W in, 80 W asked for, efficiency 1.
\<close>

theorem fixed_rule_compute:
  assumes fx: "rule opts = ''fixed''"
    and conf: "conforms (fst (setup_comp opts new_component)) inputs"
    and pin: "inputs ''power_in'' = Some power_in"
    and psa: "inputs ''power_split_amount'' = Some power_split_amount"
    and k: "k < num_nodes opts"
  shows "\<exists>outputs'.
           compute opts inputs outputs = Some outputs' \<and>
           (if power_in ! k < power_split_amount ! k
            then node outputs' ''power_out_A'' k = Some (Finite (power_in ! k * efficiency opts)) \<and>
                 node outputs' ''power_out_B'' k = Some (Finite 0)
            else node outputs' ''power_out_A'' k
                   = Some (Finite (power_split_amount ! k * efficiency opts)) \<and>
                 node outputs' ''power_out_B'' k
                   = Some (Finite ((power_in ! k - power_split_amount ! k) * efficiency opts)))"
proof -
  from conforms_common[OF conf] pin obtain pr
    where len: "length power_in = num_nodes opts" and pr: "inputs ''power_rating'' = Some [pr]"
    by auto
  from conforms_fixed[OF conf fx] psa
  have len': "length power_split_amount = num_nodes opts"
    by auto
  show ?thesis
    using k len len'
    by (simp add: compute_fixed[OF fx pin len psa len' pr] node_upd)
qed

theorem fixed_rule_compute_witness:
  "rule (initialize\<lparr>rule := ''fixed'', efficiency := 1\<rparr>) = ''fixed'' \<and>
   conforms (fst (setup_comp (initialize\<lparr>rule := ''fixed'', efficiency := 1\<rparr>) new_component))
     [''power_in'' \<mapsto> [50], ''power_rating'' \<mapsto> [99999999], ''power_split_amount'' \<mapsto> [80]] \<and>
   (0::nat) < num_nodes (initialize\<lparr>rule := ''fixed'', efficiency := 1\<rparr>) \<and>
   (\<exists>outputs'.
      compute (initialize\<lparr>rule := ''fixed'', efficiency := 1\<rparr>)
        [''power_in'' \<mapsto> [50], ''power_rating'' \<mapsto> [99999999], ''power_split_amount'' \<mapsto> [80]]
        Map.empty = Some outputs' \<and>
      node outputs' ''power_out_A'' 0 = Some (Finite 50) \<and>
      node outputs' ''power_out_B'' 0 = Some (Finite 0))"
proof -
  let ?opts = "initialize\<lparr>rule := ''fixed'', efficiency := 1\<rparr>"
  let ?inputs = "[''power_in'' \<mapsto> [50::real], ''power_rating'' \<mapsto> [99999999],
                  ''power_split_amount'' \<mapsto> [80]]"
  have h1: "rule ?opts = ''fixed''" by simp
  have h2: "conforms (fst (setup_comp ?opts new_component)) ?inputs"
    by (simp add: conforms_def setup_inputs initialize_def)
  have h3: "?inputs ''power_in'' = Some [50]" by simp
  have h4: "?inputs ''power_split_amount'' = Some [80]" by simp
  have h5: "(0::nat) < num_nodes ?opts" by (simp add: initialize_def)
  from fixed_rule_compute[OF h1 h2 h3 h4 h5, of Map.empty] obtain outputs'
    where c: "compute ?opts ?inputs Map.empty = Some outputs'"
      and r: "if [50::real] ! 0 < [80] ! 0
              then node outputs' ''power_out_A'' 0 = Some (Finite ([50] ! 0 * efficiency ?opts)) \<and>
                   node outputs' ''power_out_B'' 0 = Some (Finite 0)
              else node outputs' ''power_out_A'' 0 = Some (Finite ([80] ! 0 * efficiency ?opts)) \<and>
                   node outputs' ''power_out_B'' 0
                     = Some (Finite (([50] ! 0 - [80] ! 0) * efficiency ?opts))"
    by blast
  from r have "node outputs' ''power_out_A'' 0 = Some (Finite 50)"
    and "node outputs' ''power_out_B'' 0 = Some (Finite 0)"
    by simp_all
  with c h1 h2 h5 show ?thesis by blast
qed

text \<open>
  Claim C3. Under the rule \<open>fixed\<close>, \<open>compute_partials\<close> gives at every node: where
  \<open>power_in < power_split_amount\<close>, the partial of \<open>power_out_A\<close> by \<open>power_in\<close> is
  \<open>eta\<close> and the other three are 0; elsewhere, so also where the two are equal, the
  partial of \<open>power_out_A\<close> by \<open>power_in\<close> is 0, that of \<open>power_out_A\<close> by
  \<open>power_split_amount\<close> is \<open>eta\<close>, that of \<open>power_out_B\<close> by \<open>power_in\<close> is \<open>eta\<close>
  and that of \<open>power_out_B\<close> by \<open>power_split_amount\<close> is \<open>- eta\<close>. The witness is
  at the boundary \<open>power_in = power_split_amount\<close>.
\<close>

theorem fixed_rule_partials:
  assumes fx: "rule opts = ''fixed''"
    and conf: "conforms (fst (setup_comp opts new_component)) inputs"
    and pin: "inputs ''power_in'' = Some power_in"
    and psa: "inputs ''power_split_amount'' = Some power_split_amount"
    and k: "k < num_nodes opts"
  shows "\<exists>J'.
           compute_partials opts inputs J = Some J' \<and>
           (if power_in ! k < power_split_amount ! k
            then node J' (''power_out_A'', ''power_in'') k = Some (Finite (efficiency opts)) \<and>
                 node J' (''power_out_A'', ''power_split_amount'') k = Some (Finite 0) \<and>
                 node J' (''power_out_B'', ''power_in'') k = Some (Finite 0) \<and>
                 node J' (''power_out_B'', ''power_split_amount'') k = Some (Finite 0)
            else node J' (''power_out_A'', ''power_in'') k = Some (Finite 0) \<and>
                 node J' (''power_out_A'', ''power_split_amount'') k = Some (Finite (efficiency opts)) \<and>
                 node J' (''power_out_B'', ''power_in'') k = Some (Finite (efficiency opts)) \<and>
                 node J' (''power_out_B'', ''power_split_amount'') k
                   = Some (Finite (- efficiency opts)))"
proof -
  from conforms_common[OF conf] pin obtain pr
    where len: "length power_in = num_nodes opts" and pr: "inputs ''power_rating'' = Some [pr]"
    by auto
  from conforms_fixed[OF conf fx] psa
  have len': "length power_split_amount = num_nodes opts"
    by auto
  show ?thesis
    using k len len'
    by (simp add: partials_fixed[OF fx pin len psa len' pr] node_upd)
qed

theorem fixed_rule_partials_witness:
  "rule (initialize\<lparr>rule := ''fixed'', efficiency := 0.95\<rparr>) = ''fixed'' \<and>
   conforms (fst (setup_comp (initialize\<lparr>rule := ''fixed'', efficiency := 0.95\<rparr>) new_component))
     [''power_in'' \<mapsto> [30], ''power_rating'' \<mapsto> [99999999], ''power_split_amount'' \<mapsto> [30]] \<and>
   (0::nat) < num_nodes (initialize\<lparr>rule := ''fixed'', efficiency := 0.95\<rparr>) \<and>
   (\<exists>J'.
      compute_partials (initialize\<lparr>rule := ''fixed'', efficiency := 0.95\<rparr>)
        [''power_in'' \<mapsto> [30], ''power_rating'' \<mapsto> [99999999], ''power_split_amount'' \<mapsto> [30]]
        Map.empty = Some J' \<and>
      node J' (''power_out_A'', ''power_in'') 0 = Some (Finite 0) \<and>
      node J' (''power_out_A'', ''power_split_amount'') 0 = Some (Finite 0.95) \<and>
      node J' (''power_out_B'', ''power_in'') 0 = Some (Finite 0.95) \<and>
      node J' (''power_out_B'', ''power_split_amount'') 0 = Some (Finite (- 0.95)))"
proof -
  let ?opts = "initialize\<lparr>rule := ''fixed'', efficiency := 0.95\<rparr>"
  let ?inputs = "[''power_in'' \<mapsto> [30::real], ''power_rating'' \<mapsto> [99999999],
                  ''power_split_amount'' \<mapsto> [30]]"
  have h1: "rule ?opts = ''fixed''" by simp
  have h2: "conforms (fst (setup_comp ?opts new_component)) ?inputs"
    by (simp add: conforms_def setup_inputs initialize_def)
  have h3: "?inputs ''power_in'' = Some [30]" by simp
  have h4: "?inputs ''power_split_amount'' = Some [30]" by simp
  have h5: "(0::nat) < num_nodes ?opts" by (simp add: initialize_def)
  from fixed_rule_partials[OF h1 h2 h3 h4 h5, of Map.empty] obtain J'
    where c: "compute_partials ?opts ?inputs Map.empty = Some J'"
      and r: "if [30::real] ! 0 < [30] ! 0
              then node J' (''power_out_A'', ''power_in'') 0 = Some (Finite (efficiency ?opts)) \<and>
                   node J' (''power_out_A'', ''power_split_amount'') 0 = Some (Finite 0) \<and>
                   node J' (''power_out_B'', ''power_in'') 0 = Some (Finite 0) \<and>
                   node J' (''power_out_B'', ''power_split_amount'') 0 = Some (Finite 0)
              else node J' (''power_out_A'', ''power_in'') 0 = Some (Finite 0) \<and>
                   node J' (''power_out_A'', ''power_split_amount'') 0
                     = Some (Finite (efficiency ?opts)) \<and>
                   node J' (''power_out_B'', ''power_in'') 0 = Some (Finite (efficiency ?opts)) \<and>
                   node J' (''power_out_B'', ''power_split_amount'') 0
                     = Some (Finite (- efficiency ?opts))"
    by blast
  from r have "node J' (''power_out_A'', ''power_in'') 0 = Some (Finite 0)"
    and "node J' (''power_out_A'', ''power_split_amount'') 0 = Some (Finite 0.95)"
    and "node J' (''power_out_B'', ''power_in'') 0 = Some (Finite 0.95)"
    and "node J' (''power_out_B'', ''power_split_amount'') 0 = Some (Finite (- 0.95))"
    by simp_all
  with c h1 h2 h5 show ?thesis by blast
qed

subsection \<open>The proportional rule\<close>

text \<open>
  Claim C4. Under the rule \<open>fraction\<close>, at every node \<open>power_out_A\<close> is
  \<open>power_in * power_split_fraction * eta\<close> and \<open>power_out_B\<close> is
  \<open>power_in * (1 - power_split_fraction) * eta\<close>; \<open>heat_out\<close> is
  \<open>power_in * (1 - eta)\<close>. The witness is the example of the specification: 100 W in,
  fraction 0.7 and efficiency 0.98 give 68.6 W, 29.4 W and 2 W of heat.
\<close>

theorem fraction_rule_compute:
  assumes fr: "rule opts = ''fraction''"
    and conf: "conforms (fst (setup_comp opts new_component)) inputs"
    and pin: "inputs ''power_in'' = Some power_in"
    and psf: "inputs ''power_split_fraction'' = Some power_split_fraction"
    and k: "k < num_nodes opts"
  shows "\<exists>outputs'.
           compute opts inputs outputs = Some outputs' \<and>
           node outputs' ''power_out_A'' k
             = Some (Finite (power_in ! k * power_split_fraction ! k * efficiency opts)) \<and>
           node outputs' ''power_out_B'' k
             = Some (Finite (power_in ! k * (1 - power_split_fraction ! k) * efficiency opts)) \<and>
           node outputs' ''heat_out'' k = Some (Finite (power_in ! k * (1 - efficiency opts)))"
proof -
  from conforms_common[OF conf] pin obtain pr
    where len: "length power_in = num_nodes opts" and pr: "inputs ''power_rating'' = Some [pr]"
    by auto
  from conforms_fraction[OF conf fr] psf
  have len': "length power_split_fraction = num_nodes opts"
    by auto
  show ?thesis
    using k len len'
    by (simp add: compute_fraction[OF fr pin len psf len' pr] node_upd)
qed

theorem fraction_rule_compute_witness:
  "rule (initialize\<lparr>rule := ''fraction'', efficiency := 0.98\<rparr>) = ''fraction'' \<and>
   conforms (fst (setup_comp (initialize\<lparr>rule := ''fraction'', efficiency := 0.98\<rparr>) new_component))
     [''power_in'' \<mapsto> [100], ''power_rating'' \<mapsto> [150], ''power_split_fraction'' \<mapsto> [0.7]] \<and>
   (0::nat) < num_nodes (initialize\<lparr>rule := ''fraction'', efficiency := 0.98\<rparr>) \<and>
   (\<exists>outputs'.
      compute (initialize\<lparr>rule := ''fraction'', efficiency := 0.98\<rparr>)
        [''power_in'' \<mapsto> [100], ''power_rating'' \<mapsto> [150], ''power_split_fraction'' \<mapsto> [0.7]]
        Map.empty = Some outputs' \<and>
      node outputs' ''power_out_A'' 0 = Some (Finite 68.6) \<and>
      node outputs' ''power_out_B'' 0 = Some (Finite 29.4) \<and>
      node outputs' ''heat_out'' 0 = Some (Finite 2))"
proof -
  let ?opts = "initialize\<lparr>rule := ''fraction'', efficiency := 0.98\<rparr>"
  let ?inputs = "[''power_in'' \<mapsto> [100::real], ''power_rating'' \<mapsto> [150],
                  ''power_split_fraction'' \<mapsto> [0.7]]"
  have h1: "rule ?opts = ''fraction''" by simp
  have h2: "conforms (fst (setup_comp ?opts new_component)) ?inputs"
    by (simp add: conforms_def setup_inputs initialize_def)
  have h3: "?inputs ''power_in'' = Some [100]" by simp
  have h4: "?inputs ''power_split_fraction'' = Some [0.7]" by simp
  have h5: "(0::nat) < num_nodes ?opts" by (simp add: initialize_def)
  from fraction_rule_compute[OF h1 h2 h3 h4 h5, of Map.empty] obtain outputs'
    where c: "compute ?opts ?inputs Map.empty = Some outputs'"
      and a: "node outputs' ''power_out_A'' 0
                = Some (Finite ([100] ! 0 * [0.7] ! 0 * efficiency ?opts))"
      and b: "node outputs' ''power_out_B'' 0
                = Some (Finite ([100] ! 0 * (1 - [0.7] ! 0) * efficiency ?opts))"
      and h: "node outputs' ''heat_out'' 0 = Some (Finite ([100] ! 0 * (1 - efficiency ?opts)))"
    by blast
  from a have a': "node outputs' ''power_out_A'' 0 = Some (Finite 68.6)" by simp
  from b have b': "node outputs' ''power_out_B'' 0 = Some (Finite 29.4)" by simp
  from h have h': "node outputs' ''heat_out'' 0 = Some (Finite 2)" by simp
  from c a' b' h' h1 h2 h5 show ?thesis by blast
qed

text \<open>
  Claim C5. Under the rule \<open>fraction\<close>, at every node the partial of \<open>power_out_A\<close>
  by \<open>power_in\<close> is \<open>power_split_fraction * eta\<close>, that of \<open>power_out_A\<close> by
  \<open>power_split_fraction\<close> is \<open>power_in * eta\<close>, that of \<open>power_out_B\<close> by
  \<open>power_in\<close> is \<open>(1 - power_split_fraction) * eta\<close> and that of \<open>power_out_B\<close> by
  \<open>power_split_fraction\<close> is \<open>- power_in * eta\<close>. They are functions of the options
  and of the given input vector alone: whatever Jacobian \<open>J\<close> the call starts from, and
  with no output of an earlier \<open>compute\<close> among its arguments.
\<close>

theorem fraction_rule_partials:
  assumes fr: "rule opts = ''fraction''"
    and conf: "conforms (fst (setup_comp opts new_component)) inputs"
    and pin: "inputs ''power_in'' = Some power_in"
    and psf: "inputs ''power_split_fraction'' = Some power_split_fraction"
    and k: "k < num_nodes opts"
  shows "\<exists>J'.
           compute_partials opts inputs J = Some J' \<and>
           node J' (''power_out_A'', ''power_in'') k
             = Some (Finite (power_split_fraction ! k * efficiency opts)) \<and>
           node J' (''power_out_A'', ''power_split_fraction'') k
             = Some (Finite (power_in ! k * efficiency opts)) \<and>
           node J' (''power_out_B'', ''power_in'') k
             = Some (Finite ((1 - power_split_fraction ! k) * efficiency opts)) \<and>
           node J' (''power_out_B'', ''power_split_fraction'') k
             = Some (Finite (- power_in ! k * efficiency opts))"
proof -
  from conforms_common[OF conf] pin obtain pr
    where len: "length power_in = num_nodes opts" and pr: "inputs ''power_rating'' = Some [pr]"
    by auto
  from conforms_fraction[OF conf fr] psf
  have len': "length power_split_fraction = num_nodes opts"
    by auto
  show ?thesis
    using k len len'
    by (simp add: partials_fraction[OF fr pin psf pr] node_upd)
qed

theorem fraction_rule_partials_witness:
  "rule (initialize\<lparr>rule := ''fraction'', efficiency := 0.98\<rparr>) = ''fraction'' \<and>
   conforms (fst (setup_comp (initialize\<lparr>rule := ''fraction'', efficiency := 0.98\<rparr>) new_component))
     [''power_in'' \<mapsto> [100], ''power_rating'' \<mapsto> [150], ''power_split_fraction'' \<mapsto> [0.7]] \<and>
   (0::nat) < num_nodes (initialize\<lparr>rule := ''fraction'', efficiency := 0.98\<rparr>) \<and>
   (\<exists>J'.
      compute_partials (initialize\<lparr>rule := ''fraction'', efficiency := 0.98\<rparr>)
        [''power_in'' \<mapsto> [100], ''power_rating'' \<mapsto> [150], ''power_split_fraction'' \<mapsto> [0.7]]
        Map.empty = Some J' \<and>
      node J' (''power_out_A'', ''power_in'') 0 = Some (Finite 0.686) \<and>
      node J' (''power_out_A'', ''power_split_fraction'') 0 = Some (Finite 98) \<and>
      node J' (''power_out_B'', ''power_in'') 0 = Some (Finite 0.294) \<and>
      node J' (''power_out_B'', ''power_split_fraction'') 0 = Some (Finite (- 98)))"
proof -
  let ?opts = "initialize\<lparr>rule := ''fraction'', efficiency := 0.98\<rparr>"
  let ?inputs = "[''power_in'' \<mapsto> [100::real], ''power_rating'' \<mapsto> [150],
                  ''power_split_fraction'' \<mapsto> [0.7]]"
  have h1: "rule ?opts = ''fraction''" by simp
  have h2: "conforms (fst (setup_comp ?opts new_component)) ?inputs"
    by (simp add: conforms_def setup_inputs initialize_def)
  have h3: "?inputs ''power_in'' = Some [100]" by simp
  have h4: "?inputs ''power_split_fraction'' = Some [0.7]" by simp
  have h5: "(0::nat) < num_nodes ?opts" by (simp add: initialize_def)
  from fraction_rule_partials[OF h1 h2 h3 h4 h5, of Map.empty] obtain J'
    where c: "compute_partials ?opts ?inputs Map.empty = Some J'"
      and a1: "node J' (''power_out_A'', ''power_in'') 0
                = Some (Finite ([0.7] ! 0 * efficiency ?opts))"
      and a2: "node J' (''power_out_A'', ''power_split_fraction'') 0
                = Some (Finite ([100] ! 0 * efficiency ?opts))"
      and b1: "node J' (''power_out_B'', ''power_in'') 0
                = Some (Finite ((1 - [0.7] ! 0) * efficiency ?opts))"
      and b2: "node J' (''power_out_B'', ''power_split_fraction'') 0
                = Some (Finite (- [100] ! 0 * efficiency ?opts))"
    by blast
  from a1 have a1': "node J' (''power_out_A'', ''power_in'') 0 = Some (Finite 0.686)" by simp
  from a2 have a2': "node J' (''power_out_A'', ''power_split_fraction'') 0 = Some (Finite 98)" by simp
  from b1 have b1': "node J' (''power_out_B'', ''power_in'') 0 = Some (Finite 0.294)" by simp
  from b2 have b2': "node J' (''power_out_B'', ''power_split_fraction'') 0 = Some (Finite (- 98))" by simp
  from c a1' a2' b1' b2' h1 h2 h5 show ?thesis by blast
qed

subsection \<open>Waste heat\<close>

text \<open>
  Claim C6. Under either rule and for every input vector, \<open>heat_out\<close> is
  \<open>power_in * (1 - eta)\<close> at every node: the value names neither the rule nor the
  split input.
\<close>

theorem heat_out_formula:
  assumes rule: "rule opts = ''fraction'' \<or> rule opts = ''fixed''"
    and conf: "conforms (fst (setup_comp opts new_component)) inputs"
    and pin: "inputs ''power_in'' = Some power_in"
    and k: "k < num_nodes opts"
  shows "\<exists>outputs'.
           compute opts inputs outputs = Some outputs' \<and>
           node outputs' ''heat_out'' k = Some (Finite (power_in ! k * (1 - efficiency opts)))"
proof -
  from conforms_common[OF conf] pin obtain pr
    where len: "length power_in = num_nodes opts" and pr: "inputs ''power_rating'' = Some [pr]"
    by auto
  from rule show ?thesis
  proof
    assume fr: "rule opts = ''fraction''"
    from conforms_fraction[OF conf fr] obtain psf
      where psf: "inputs ''power_split_fraction'' = Some psf" "length psf = num_nodes opts"
      by auto
    show ?thesis
      using k len
      by (simp add: compute_fraction[OF fr pin len psf pr] node_upd)
  next
    assume fx: "rule opts = ''fixed''"
    from conforms_fixed[OF conf fx] obtain psa
      where psa: "inputs ''power_split_amount'' = Some psa" "length psa = num_nodes opts"
      by auto
    show ?thesis
      using k len
      by (simp add: compute_fixed[OF fx pin len psa pr] node_upd)
  qed
qed

theorem heat_out_formula_witness:
  "(rule (initialize\<lparr>rule := ''fixed'', efficiency := 0.95\<rparr>) = ''fraction'' \<or>
    rule (initialize\<lparr>rule := ''fixed'', efficiency := 0.95\<rparr>) = ''fixed'') \<and>
   conforms (fst (setup_comp (initialize\<lparr>rule := ''fixed'', efficiency := 0.95\<rparr>) new_component))
     [''power_in'' \<mapsto> [100], ''power_rating'' \<mapsto> [150], ''power_split_amount'' \<mapsto> [30]] \<and>
   (0::nat) < num_nodes (initialize\<lparr>rule := ''fixed'', efficiency := 0.95\<rparr>) \<and>
   (\<exists>outputs'.
      compute (initialize\<lparr>rule := ''fixed'', efficiency := 0.95\<rparr>)
        [''power_in'' \<mapsto> [100], ''power_rating'' \<mapsto> [150], ''power_split_amount'' \<mapsto> [30]]
        Map.empty = Some outputs' \<and>
      node outputs' ''heat_out'' 0 = Some (Finite 5))"
proof -
  let ?opts = "initialize\<lparr>rule := ''fixed'', efficiency := 0.95\<rparr>"
  let ?inputs = "[''power_in'' \<mapsto> [100::real], ''power_rating'' \<mapsto> [150],
                  ''power_split_amount'' \<mapsto> [30]]"
  have h1: "rule ?opts = ''fraction'' \<or> rule ?opts = ''fixed''" by simp
  have h2: "conforms (fst (setup_comp ?opts new_component)) ?inputs"
    by (simp add: conforms_def setup_inputs initialize_def)
  have h3: "?inputs ''power_in'' = Some [100]" by simp
  have h5: "(0::nat) < num_nodes ?opts" by (simp add: initialize_def)
  from heat_out_formula[OF h1 h2 h3 h5, of Map.empty] obtain outputs'
    where c: "compute ?opts ?inputs Map.empty = Some outputs'"
      and h: "node outputs' ''heat_out'' 0 = Some (Finite ([100] ! 0 * (1 - efficiency ?opts)))"
    by blast
  from h have h': "node outputs' ''heat_out'' 0 = Some (Finite 5)" by simp
  from c h' h1 h2 h5 show ?thesis by blast
qed

subsection \<open>Sizing margin, cost and weight\<close>

text \<open>What both rules share: the entries of the sizing margin, and the cost and weight.\<close>

lemma partials_either:
  assumes rule: "rule opts = ''fraction'' \<or> rule opts = ''fixed''"
    and conf: "conforms (fst (setup_comp opts new_component)) inputs"
    and pin: "inputs ''power_in'' = Some pin"
    and pr: "inputs ''power_rating'' = Some [pr]"
  shows "\<exists>J'. compute_partials opts inputs J = Some J' \<and>
           J' (''component_sizing_margin'', ''power_in'') = Some [np_div 1 pr] \<and>
           J' (''component_sizing_margin'', ''power_rating'') = Some (map (\<lambda>p. np_div (- p) (pr ^ 2)) pin) \<and>
           (\<forall>wrt. J' (''component_cost'', wrt) = J (''component_cost'', wrt)) \<and>
           (\<forall>wrt. J' (''component_weight'', wrt) = J (''component_weight'', wrt))"
proof -
  from conforms_common[OF conf] pin
  have len: "length pin = num_nodes opts"
    by auto
  from rule show ?thesis
  proof
    assume fr: "rule opts = ''fraction''"
    from conforms_fraction[OF conf fr] obtain psf
      where psf: "inputs ''power_split_fraction'' = Some psf" "length psf = num_nodes opts"
      by auto
    show ?thesis
      by (simp add: partials_fraction[OF fr pin psf(1) pr])
  next
    assume fx: "rule opts = ''fixed''"
    from conforms_fixed[OF conf fx] obtain psa
      where psa: "inputs ''power_split_amount'' = Some psa" "length psa = num_nodes opts"
      by auto
    show ?thesis
      by (simp add: partials_fixed[OF fx pin len psa pr])
  qed
qed

lemma compute_either:
  assumes rule: "rule opts = ''fraction'' \<or> rule opts = ''fixed''"
    and conf: "conforms (fst (setup_comp opts new_component)) inputs"
    and pin: "inputs ''power_in'' = Some pin"
    and pr: "inputs ''power_rating'' = Some [pr]"
  shows "\<exists>outputs'. compute opts inputs outputs = Some outputs' \<and>
           outputs' ''component_cost'' = Some [Finite (pr * cost_inc opts + cost_base opts)] \<and>
           outputs' ''component_weight'' = Some [Finite (pr * weight_inc opts + weight_base opts)] \<and>
           outputs' ''component_sizing_margin'' = Some (map (\<lambda>p. np_div p pr) pin)"
proof -
  from conforms_common[OF conf] pin
  have len: "length pin = num_nodes opts"
    by auto
  from rule show ?thesis
  proof
    assume fr: "rule opts = ''fraction''"
    from conforms_fraction[OF conf fr] obtain psf
      where psf: "inputs ''power_split_fraction'' = Some psf" "length psf = num_nodes opts"
      by auto
    show ?thesis
      by (simp add: compute_fraction[OF fr pin len psf pr])
  next
    assume fx: "rule opts = ''fixed''"
    from conforms_fixed[OF conf fx] obtain psa
      where psa: "inputs ''power_split_amount'' = Some psa" "length psa = num_nodes opts"
      by auto
    show ?thesis
      by (simp add: compute_fixed[OF fx pin len psa pr])
  qed
qed

text \<open>
  Claim C8. For every input vector, \<open>compute\<close> returns without an exception and
  \<open>component_sizing_margin\<close> is \<open>power_in / power_rating\<close> at every node, where the
  division by a zero rating is the non-finite result of numpy and a negative rating gives
  a negative margin; \<open>compute_partials\<close> gives \<open>1 / power_rating\<close> for the partial
  by \<open>power_in\<close> (one value, the same at every node) and
  \<open>- power_in / power_rating ^ 2\<close> for the partial by \<open>power_rating\<close>. The witness has
  a rating of 0 and a rating of -50.
\<close>

theorem sizing_margin:
  assumes rule: "rule opts = ''fraction'' \<or> rule opts = ''fixed''"
    and conf: "conforms (fst (setup_comp opts new_component)) inputs"
    and pin: "inputs ''power_in'' = Some power_in"
    and pr: "inputs ''power_rating'' = Some [power_rating]"
    and k: "k < num_nodes opts"
  shows "\<exists>outputs' J'.
           compute opts inputs outputs = Some outputs' \<and>
           compute_partials opts inputs J = Some J' \<and>
           node outputs' ''component_sizing_margin'' k
             = Some (if power_rating = 0 then NonFinite
                     else Finite (power_in ! k / power_rating)) \<and>
           J' (''component_sizing_margin'', ''power_in'')
             = Some [if power_rating = 0 then NonFinite else Finite (1 / power_rating)] \<and>
           node J' (''component_sizing_margin'', ''power_rating'') k
             = Some (if power_rating = 0 then NonFinite
                     else Finite (- power_in ! k / power_rating ^ 2))"
proof -
  from conforms_common[OF conf] pin
  have len: "length power_in = num_nodes opts"
    by auto
  from compute_either[OF rule conf pin pr, of outputs] obtain outputs'
    where c: "compute opts inputs outputs = Some outputs'"
      and m: "outputs' ''component_sizing_margin'' = Some (map (\<lambda>p. np_div p power_rating) power_in)"
    by blast
  from partials_either[OF rule conf pin pr, of J] obtain J'
    where p: "compute_partials opts inputs J = Some J'"
      and m1: "J' (''component_sizing_margin'', ''power_in'') = Some [np_div 1 power_rating]"
      and m2: "J' (''component_sizing_margin'', ''power_rating'')
                 = Some (map (\<lambda>p. np_div (- p) (power_rating ^ 2)) power_in)"
    by blast
  show ?thesis
    using c p m m1 m2 k len
    by (simp add: node_def np_div_def)
qed


theorem sizing_margin_witness:
  "(rule initialize = ''fraction'' \<or> rule initialize = ''fixed'') \<and>
   conforms (fst (setup_comp initialize new_component))
     [''power_in'' \<mapsto> [100], ''power_rating'' \<mapsto> [0], ''power_split_fraction'' \<mapsto> [0.5]] \<and>
   conforms (fst (setup_comp initialize new_component))
     [''power_in'' \<mapsto> [100], ''power_rating'' \<mapsto> [- 50], ''power_split_fraction'' \<mapsto> [0.5]] \<and>
   (0::nat) < num_nodes initialize \<and>
   (\<exists>outputs' J'.
      compute initialize
        [''power_in'' \<mapsto> [100], ''power_rating'' \<mapsto> [0], ''power_split_fraction'' \<mapsto> [0.5]]
        Map.empty = Some outputs' \<and>
      compute_partials initialize
        [''power_in'' \<mapsto> [100], ''power_rating'' \<mapsto> [0], ''power_split_fraction'' \<mapsto> [0.5]]
        Map.empty = Some J' \<and>
      node outputs' ''component_sizing_margin'' 0 = Some NonFinite \<and>
      J' (''component_sizing_margin'', ''power_in'') = Some [NonFinite] \<and>
      node J' (''component_sizing_margin'', ''power_rating'') 0 = Some NonFinite) \<and>
   (\<exists>outputs' J'.
      compute initialize
        [''power_in'' \<mapsto> [100], ''power_rating'' \<mapsto> [- 50], ''power_split_fraction'' \<mapsto> [0.5]]
        Map.empty = Some outputs' \<and>
      compute_partials initialize
        [''power_in'' \<mapsto> [100], ''power_rating'' \<mapsto> [- 50], ''power_split_fraction'' \<mapsto> [0.5]]
        Map.empty = Some J' \<and>
      node outputs' ''component_sizing_margin'' 0 = Some (Finite (- 2)) \<and>
      J' (''component_sizing_margin'', ''power_in'') = Some [Finite (- 0.02)] \<and>
      node J' (''component_sizing_margin'', ''power_rating'') 0 = Some (Finite (- 0.04)))"
proof -
  let ?in0 = "[''power_in'' \<mapsto> [100::real], ''power_rating'' \<mapsto> [0],
               ''power_split_fraction'' \<mapsto> [0.5]]"
  let ?in1 = "[''power_in'' \<mapsto> [100::real], ''power_rating'' \<mapsto> [- 50],
               ''power_split_fraction'' \<mapsto> [0.5]]"
  have h1: "rule initialize = ''fraction'' \<or> rule initialize = ''fixed''"
    by (simp add: initialize_def)
  have h2: "conforms (fst (setup_comp initialize new_component)) ?in0"
    by (simp add: conforms_def setup_inputs initialize_def)
  have h2': "conforms (fst (setup_comp initialize new_component)) ?in1"
    by (simp add: conforms_def setup_inputs initialize_def)
  have h3: "?in0 ''power_in'' = Some [100]" and h3': "?in1 ''power_in'' = Some [100]"
    by simp_all
  have h4: "?in0 ''power_rating'' = Some [0]" and h4': "?in1 ''power_rating'' = Some [- 50]"
    by simp_all
  have h5: "(0::nat) < num_nodes initialize" by (simp add: initialize_def)
  from sizing_margin[OF h1 h2 h3 h4 h5, of Map.empty Map.empty] obtain outputs0 J0
    where c0: "compute initialize ?in0 Map.empty = Some outputs0"
      and p0: "compute_partials initialize ?in0 Map.empty = Some J0"
      and m0: "node outputs0 ''component_sizing_margin'' 0
                 = Some (if (0::real) = 0 then NonFinite else Finite ([100] ! 0 / 0))"
      and a0: "J0 (''component_sizing_margin'', ''power_in'')
                 = Some [if (0::real) = 0 then NonFinite else Finite (1 / 0)]"
      and b0: "node J0 (''component_sizing_margin'', ''power_rating'') 0
                 = Some (if (0::real) = 0 then NonFinite else Finite (- [100] ! 0 / 0 ^ 2))"
    by blast
  from m0 a0 b0 have r0: "node outputs0 ''component_sizing_margin'' 0 = Some NonFinite"
      "J0 (''component_sizing_margin'', ''power_in'') = Some [NonFinite]"
      "node J0 (''component_sizing_margin'', ''power_rating'') 0 = Some NonFinite"
    by simp_all
  from sizing_margin[OF h1 h2' h3' h4' h5, of Map.empty Map.empty] obtain outputs1 J1
    where c1: "compute initialize ?in1 Map.empty = Some outputs1"
      and p1: "compute_partials initialize ?in1 Map.empty = Some J1"
      and m1: "node outputs1 ''component_sizing_margin'' 0
                 = Some (if (- 50::real) = 0 then NonFinite else Finite ([100] ! 0 / (- 50)))"
      and a1: "J1 (''component_sizing_margin'', ''power_in'')
                 = Some [if (- 50::real) = 0 then NonFinite else Finite (1 / (- 50))]"
      and b1: "node J1 (''component_sizing_margin'', ''power_rating'') 0
                 = Some (if (- 50::real) = 0 then NonFinite else Finite (- [100] ! 0 / (- 50) ^ 2))"
    by blast
  from m1 a1 b1 have r1: "node outputs1 ''component_sizing_margin'' 0 = Some (Finite (- 2))"
      "J1 (''component_sizing_margin'', ''power_in'') = Some [Finite (- 0.02)]"
      "node J1 (''component_sizing_margin'', ''power_rating'') 0 = Some (Finite (- 0.04))"
    by simp_all
  from c0 p0 r0 have e0: "\<exists>outputs' J'.
      compute initialize ?in0 Map.empty = Some outputs' \<and>
      compute_partials initialize ?in0 Map.empty = Some J' \<and>
      node outputs' ''component_sizing_margin'' 0 = Some NonFinite \<and>
      J' (''component_sizing_margin'', ''power_in'') = Some [NonFinite] \<and>
      node J' (''component_sizing_margin'', ''power_rating'') 0 = Some NonFinite"
    by blast
  from c1 p1 r1 have e1: "\<exists>outputs' J'.
      compute initialize ?in1 Map.empty = Some outputs' \<and>
      compute_partials initialize ?in1 Map.empty = Some J' \<and>
      node outputs' ''component_sizing_margin'' 0 = Some (Finite (- 2)) \<and>
      J' (''component_sizing_margin'', ''power_in'') = Some [Finite (- 0.02)] \<and>
      node J' (''component_sizing_margin'', ''power_rating'') 0 = Some (Finite (- 0.04))"
    by blast
  from h1 h2 h2' h5 e0 e1 show ?thesis
    by (intro conjI)
qed

lemma setup_partials_cost_weight:
  assumes "rule opts = ''fraction'' \<or> rule opts = ''fixed''"
  shows "filter (\<lambda>d. p_of d = ''component_cost'') (comp_partials (fst (setup_comp opts new_component)))
           = [\<lparr>p_of = ''component_cost'', p_wrt = ''power_rating'', p_rows = None, p_cols = None,
               p_val = Some [cost_inc opts]\<rparr>]"
    and "filter (\<lambda>d. p_of d = ''component_weight'') (comp_partials (fst (setup_comp opts new_component)))
           = [\<lparr>p_of = ''component_weight'', p_wrt = ''power_rating'', p_rows = None, p_cols = None,
               p_val = Some [weight_inc opts]\<rparr>]"
  using assms
  by (auto simp: setup_comp_def Let_def add_input_def add_output_def declare_partials_def
      new_component_def)

text \<open>
  Claim C9. Under either rule, \<open>component_cost\<close> is
  \<open>power_rating * cost_inc + cost_base\<close> and \<open>component_weight\<close> is
  \<open>power_rating * weight_inc + weight_base\<close> for every input vector, so two input
  vectors with the same \<open>power_rating\<close> give the same cost and weight whatever their
  \<open>power_in\<close> and split input. The only partial that \<open>setup\<close> declares for the cost
  is the one by \<open>power_rating\<close>, with the constant value \<open>cost_inc\<close>, and likewise
  \<open>weight_inc\<close> for the weight; \<open>compute_partials\<close> writes no entry of either. The
  witness has the options and values of the script at the end of the source file.
\<close>

theorem cost_weight:
  assumes rule: "rule opts = ''fraction'' \<or> rule opts = ''fixed''"
    and conf: "conforms (fst (setup_comp opts new_component)) inputs"
    and pr: "inputs ''power_rating'' = Some [power_rating]"
    and conf2: "conforms (fst (setup_comp opts new_component)) inputs2"
    and pr2: "inputs2 ''power_rating'' = Some [power_rating]"
  shows "\<exists>outputs' outputs2' J'.
           compute opts inputs outputs = Some outputs' \<and>
           compute opts inputs2 outputs2 = Some outputs2' \<and>
           compute_partials opts inputs J = Some J' \<and>
           outputs' ''component_cost''
             = Some [Finite (power_rating * cost_inc opts + cost_base opts)] \<and>
           outputs' ''component_weight''
             = Some [Finite (power_rating * weight_inc opts + weight_base opts)] \<and>
           outputs2' ''component_cost'' = outputs' ''component_cost'' \<and>
           outputs2' ''component_weight'' = outputs' ''component_weight'' \<and>
           filter (\<lambda>d. p_of d = ''component_cost'')
               (comp_partials (fst (setup_comp opts new_component)))
             = [\<lparr>p_of = ''component_cost'', p_wrt = ''power_rating'', p_rows = None,
                 p_cols = None, p_val = Some [cost_inc opts]\<rparr>] \<and>
           filter (\<lambda>d. p_of d = ''component_weight'')
               (comp_partials (fst (setup_comp opts new_component)))
             = [\<lparr>p_of = ''component_weight'', p_wrt = ''power_rating'', p_rows = None,
                 p_cols = None, p_val = Some [weight_inc opts]\<rparr>] \<and>
           (\<forall>wrt. J' (''component_cost'', wrt) = J (''component_cost'', wrt)) \<and>
           (\<forall>wrt. J' (''component_weight'', wrt) = J (''component_weight'', wrt))"
proof -
  from conforms_common[OF conf] pr obtain pin
    where pin: "inputs ''power_in'' = Some pin"
    by auto
  from conforms_common[OF conf2] pr2 obtain pin2
    where pin2: "inputs2 ''power_in'' = Some pin2"
    by auto
  from compute_either[OF rule conf pin pr, of outputs] obtain outputs'
    where c: "compute opts inputs outputs = Some outputs'"
      and cost: "outputs' ''component_cost''
                   = Some [Finite (power_rating * cost_inc opts + cost_base opts)]"
      and weight: "outputs' ''component_weight''
                   = Some [Finite (power_rating * weight_inc opts + weight_base opts)]"
    by blast
  from compute_either[OF rule conf2 pin2 pr2, of outputs2] obtain outputs2'
    where c2: "compute opts inputs2 outputs2 = Some outputs2'"
      and cost2: "outputs2' ''component_cost''
                   = Some [Finite (power_rating * cost_inc opts + cost_base opts)]"
      and weight2: "outputs2' ''component_weight''
                   = Some [Finite (power_rating * weight_inc opts + weight_base opts)]"
    by blast
  from partials_either[OF rule conf pin pr, of J] obtain J'
    where p: "compute_partials opts inputs J = Some J'"
      and jc: "\<forall>wrt. J' (''component_cost'', wrt) = J (''component_cost'', wrt)"
      and jw: "\<forall>wrt. J' (''component_weight'', wrt) = J (''component_weight'', wrt)"
    by blast
  from cost cost2 have ceq: "outputs2' ''component_cost'' = outputs' ''component_cost''"
    by simp
  from weight weight2 have weq: "outputs2' ''component_weight'' = outputs' ''component_weight''"
    by simp
  from c c2 p cost weight ceq weq jc jw setup_partials_cost_weight[OF rule]
  show ?thesis
    by blast
qed


theorem cost_weight_witness:
  "(rule (initialize\<lparr>efficiency := 0.98, weight_inc := 0.2, weight_base := 20, cost_inc := 0.05, cost_base := 10000\<rparr>) = ''fraction'' \<or> rule (initialize\<lparr>efficiency := 0.98, weight_inc := 0.2, weight_base := 20, cost_inc := 0.05, cost_base := 10000\<rparr>) = ''fixed'') \<and>
   conforms (fst (setup_comp (initialize\<lparr>efficiency := 0.98, weight_inc := 0.2, weight_base := 20, cost_inc := 0.05, cost_base := 10000\<rparr>) new_component))
     [''power_in'' \<mapsto> [100000], ''power_rating'' \<mapsto> [150000], ''power_split_fraction'' \<mapsto> [0.7]] \<and>
   conforms (fst (setup_comp (initialize\<lparr>efficiency := 0.98, weight_inc := 0.2, weight_base := 20, cost_inc := 0.05, cost_base := 10000\<rparr>) new_component))
     [''power_in'' \<mapsto> [5], ''power_rating'' \<mapsto> [150000], ''power_split_fraction'' \<mapsto> [0.1]] \<and>
   (\<exists>outputs' outputs2' J'.
      compute (initialize\<lparr>efficiency := 0.98, weight_inc := 0.2, weight_base := 20, cost_inc := 0.05, cost_base := 10000\<rparr>)
        [''power_in'' \<mapsto> [100000], ''power_rating'' \<mapsto> [150000], ''power_split_fraction'' \<mapsto> [0.7]]
        Map.empty = Some outputs' \<and>
      compute (initialize\<lparr>efficiency := 0.98, weight_inc := 0.2, weight_base := 20, cost_inc := 0.05, cost_base := 10000\<rparr>)
        [''power_in'' \<mapsto> [5], ''power_rating'' \<mapsto> [150000], ''power_split_fraction'' \<mapsto> [0.1]]
        Map.empty = Some outputs2' \<and>
      compute_partials (initialize\<lparr>efficiency := 0.98, weight_inc := 0.2, weight_base := 20, cost_inc := 0.05, cost_base := 10000\<rparr>)
        [''power_in'' \<mapsto> [100000], ''power_rating'' \<mapsto> [150000], ''power_split_fraction'' \<mapsto> [0.7]]
        Map.empty = Some J' \<and>
      outputs' ''component_cost'' = Some [Finite 17500] \<and>
      outputs' ''component_weight'' = Some [Finite 30020] \<and>
      outputs2' ''component_cost'' = Some [Finite 17500] \<and>
      outputs2' ''component_weight'' = Some [Finite 30020] \<and>
      J' (''component_cost'', ''power_rating'') = None \<and>
      J' (''component_weight'', ''power_rating'') = None)"
proof -
  let ?opts = "(initialize\<lparr>efficiency := 0.98, weight_inc := 0.2, weight_base := 20, cost_inc := 0.05, cost_base := 10000\<rparr>)"
  let ?in1 = "[''power_in'' \<mapsto> [100000::real], ''power_rating'' \<mapsto> [150000],
               ''power_split_fraction'' \<mapsto> [0.7]]"
  let ?in2 = "[''power_in'' \<mapsto> [5::real], ''power_rating'' \<mapsto> [150000],
               ''power_split_fraction'' \<mapsto> [0.1]]"
  have h1: "rule ?opts = ''fraction'' \<or> rule ?opts = ''fixed''"
    by (simp add: initialize_def)
  have h2: "conforms (fst (setup_comp ?opts new_component)) ?in1"
    by (simp add: conforms_def setup_inputs initialize_def)
  have h3: "?in1 ''power_rating'' = Some [150000]" by simp
  have h4: "conforms (fst (setup_comp ?opts new_component)) ?in2"
    by (simp add: conforms_def setup_inputs initialize_def)
  have h5: "?in2 ''power_rating'' = Some [150000]" by simp
  from cost_weight[OF h1 h2 h3 h4 h5, of Map.empty Map.empty Map.empty]
  obtain outputs' outputs2' J'
    where c: "compute ?opts ?in1 Map.empty = Some outputs'"
      and c2: "compute ?opts ?in2 Map.empty = Some outputs2'"
      and p: "compute_partials ?opts ?in1 Map.empty = Some J'"
      and cost: "outputs' ''component_cost''
                   = Some [Finite (150000 * cost_inc ?opts + cost_base ?opts)]"
      and weight: "outputs' ''component_weight''
                   = Some [Finite (150000 * weight_inc ?opts + weight_base ?opts)]"
      and ceq: "outputs2' ''component_cost'' = outputs' ''component_cost''"
      and weq: "outputs2' ''component_weight'' = outputs' ''component_weight''"
      and jc: "\<forall>wrt. J' (''component_cost'', wrt) = Map.empty (''component_cost'', wrt)"
      and jw: "\<forall>wrt. J' (''component_weight'', wrt) = Map.empty (''component_weight'', wrt)"
    by blast
  from cost have cost': "outputs' ''component_cost'' = Some [Finite 17500]"
    by (simp add: initialize_def)
  from weight have weight': "outputs' ''component_weight'' = Some [Finite 30020]"
    by (simp add: initialize_def)
  from ceq cost' have cost2: "outputs2' ''component_cost'' = Some [Finite 17500]" by simp
  from weq weight' have weight2: "outputs2' ''component_weight'' = Some [Finite 30020]" by simp
  from jc have jc': "J' (''component_cost'', ''power_rating'') = None" by simp
  from jw have jw': "J' (''component_weight'', ''power_rating'') = None" by simp
  from c c2 p cost' weight' cost2 weight2 jc' jw'
  have "\<exists>outputs' outputs2' J'.
      compute ?opts ?in1 Map.empty = Some outputs' \<and>
      compute ?opts ?in2 Map.empty = Some outputs2' \<and>
      compute_partials ?opts ?in1 Map.empty = Some J' \<and>
      outputs' ''component_cost'' = Some [Finite 17500] \<and>
      outputs' ''component_weight'' = Some [Finite 30020] \<and>
      outputs2' ''component_cost'' = Some [Finite 17500] \<and>
      outputs2' ''component_weight'' = Some [Finite 30020] \<and>
      J' (''component_cost'', ''power_rating'') = None \<and>
      J' (''component_weight'', ''power_rating'') = None"
    by blast
  with h1 h2 h4 show ?thesis
    by (intro conjI)
qed


subsection \<open>The fixed-amount rule as minimum and maximum\<close>

text \<open>
  Claim C10. Under the rule \<open>fixed\<close>, for inputs of any sign, at every node
  \<open>power_out_A = eta * min power_in power_split_amount\<close> and
  \<open>power_out_B = eta * max (power_in - power_split_amount) 0\<close>; hence, when
  \<open>eta\<close> is not negative, \<open>power_out_B\<close> is not negative, and \<open>power_out_A\<close> is at
  most \<open>eta * power_split_amount\<close> when \<open>power_in\<close> is not negative.
\<close>

theorem fixed_rule_closed_form:
  assumes fx: "rule opts = ''fixed''"
    and conf: "conforms (fst (setup_comp opts new_component)) inputs"
    and pin: "inputs ''power_in'' = Some power_in"
    and psa: "inputs ''power_split_amount'' = Some power_split_amount"
    and k: "k < num_nodes opts"
  shows "\<exists>outputs' a b.
           compute opts inputs outputs = Some outputs' \<and>
           node outputs' ''power_out_A'' k = Some (Finite a) \<and>
           node outputs' ''power_out_B'' k = Some (Finite b) \<and>
           a = efficiency opts * min (power_in ! k) (power_split_amount ! k) \<and>
           b = efficiency opts * max (power_in ! k - power_split_amount ! k) 0 \<and>
           (0 \<le> efficiency opts \<longrightarrow>
              0 \<le> b \<and> (0 \<le> power_in ! k \<longrightarrow> a \<le> efficiency opts * power_split_amount ! k))"
proof -
  let ?eta = "efficiency opts"
  let ?p = "power_in ! k"
  let ?s = "power_split_amount ! k"
  from conforms_common[OF conf] pin obtain pr
    where len: "length power_in = num_nodes opts" and pr: "inputs ''power_rating'' = Some [pr]"
    by auto
  from conforms_fixed[OF conf fx] psa
  have len': "length power_split_amount = num_nodes opts"
    by auto
  have A: "node (the (compute opts inputs outputs)) ''power_out_A'' k
             = Some (Finite (?eta * min ?p ?s))"
    using k len len'
    by (simp add: compute_fixed[OF fx pin len psa len' pr] node_upd min_def)
  have B: "node (the (compute opts inputs outputs)) ''power_out_B'' k
             = Some (Finite (?eta * max (?p - ?s) 0))"
    using k len len'
    by (simp add: compute_fixed[OF fx pin len psa len' pr] node_upd max_def)
  have C: "compute opts inputs outputs = Some (the (compute opts inputs outputs))"
    by (simp add: compute_fixed[OF fx pin len psa len' pr])
  have D: "0 \<le> ?eta \<longrightarrow>
             0 \<le> ?eta * max (?p - ?s) 0 \<and> (0 \<le> ?p \<longrightarrow> ?eta * min ?p ?s \<le> ?eta * ?s)"
    by (simp add: mult_left_mono)
  from A B C D show ?thesis
    by blast
qed

theorem fixed_rule_closed_form_witness:
  "rule (initialize\<lparr>rule := ''fixed'', efficiency := 0.95\<rparr>) = ''fixed'' \<and>
   conforms (fst (setup_comp (initialize\<lparr>rule := ''fixed'', efficiency := 0.95\<rparr>) new_component))
     [''power_in'' \<mapsto> [100], ''power_rating'' \<mapsto> [150], ''power_split_amount'' \<mapsto> [30]] \<and>
   (0::nat) < num_nodes (initialize\<lparr>rule := ''fixed'', efficiency := 0.95\<rparr>) \<and>
   (0::real) \<le> efficiency (initialize\<lparr>rule := ''fixed'', efficiency := 0.95\<rparr>) \<and>
   (0::real) \<le> [100] ! 0 \<and>
   (\<exists>outputs'.
      compute (initialize\<lparr>rule := ''fixed'', efficiency := 0.95\<rparr>)
        [''power_in'' \<mapsto> [100], ''power_rating'' \<mapsto> [150], ''power_split_amount'' \<mapsto> [30]]
        Map.empty = Some outputs' \<and>
      node outputs' ''power_out_A'' 0 = Some (Finite 28.5) \<and>
      node outputs' ''power_out_B'' 0 = Some (Finite 66.5))"
proof -
  let ?opts = "initialize\<lparr>rule := ''fixed'', efficiency := 0.95\<rparr>"
  let ?inputs = "[''power_in'' \<mapsto> [100::real], ''power_rating'' \<mapsto> [150],
                  ''power_split_amount'' \<mapsto> [30]]"
  have h1: "rule ?opts = ''fixed''" by simp
  have h2: "conforms (fst (setup_comp ?opts new_component)) ?inputs"
    by (simp add: conforms_def setup_inputs initialize_def)
  have h3: "?inputs ''power_in'' = Some [100]" by simp
  have h4: "?inputs ''power_split_amount'' = Some [30]" by simp
  have h5: "(0::nat) < num_nodes ?opts" by (simp add: initialize_def)
  have h6: "(0::real) \<le> efficiency ?opts" by simp
  have h7: "(0::real) \<le> [100] ! 0" by simp
  from fixed_rule_closed_form[OF h1 h2 h3 h4 h5, of Map.empty] obtain outputs' a b
    where c: "compute ?opts ?inputs Map.empty = Some outputs'"
      and na: "node outputs' ''power_out_A'' 0 = Some (Finite a)"
      and nb: "node outputs' ''power_out_B'' 0 = Some (Finite b)"
      and a: "a = efficiency ?opts * min ([100] ! 0) ([30] ! 0)"
      and b: "b = efficiency ?opts * max ([100] ! 0 - [30] ! 0) 0"
    by blast
  from a have a': "a = 28.5" by simp
  from b have b': "b = 66.5" by simp
  from c na nb a' b' h1 h2 h5 h6 h7 show ?thesis
    by blast
qed

subsection \<open>A rule that is neither \<open>fraction\<close> nor \<open>fixed\<close>\<close>

text \<open>
  Claim C7, as amended. A rule other than \<open>fraction\<close> and \<open>fixed\<close> is rejected by
  \<open>setup\<close>, not by the construction of the component: \<open>setup\<close> registers the inputs
  \<open>power_in\<close> and \<open>power_rating\<close>, then raises \<open>ValueError\<close> with the message of
  the source, before it registers any output or partial; and since \<open>setup\<close> precedes
  \<open>compute\<close> in the call order of the driver, the run ends with that exception and no
  evaluation takes place.
\<close>

theorem unknown_rule_rejected_by_setup:
  assumes "rule opts \<noteq> ''fraction''" and "rule opts \<noteq> ''fixed''"
  shows "setup_comp opts new_component =
           (\<lparr>comp_inputs =
               [\<lparr>in_name = ''power_in'', in_val = None, in_units = Some ''W'',
                  in_shape = num_nodes opts\<rparr>,
                \<lparr>in_name = ''power_rating'', in_val = Some 99999999, in_units = Some ''W'',
                  in_shape = 1\<rparr>],
              comp_outputs = [], comp_partials = []\<rparr>,
            Some (ValueError rule_msg)) \<and>
         setup_run_model opts inputs outputs = Inl (ValueError rule_msg)"
  using assms
  by (simp add: setup_run_model_def setup_comp_def Let_def add_input_def new_component_def)

theorem unknown_rule_rejected_by_setup_witness:
  "rule (initialize\<lparr>rule := ''invalid''\<rparr>) \<noteq> ''fraction'' \<and>
   rule (initialize\<lparr>rule := ''invalid''\<rparr>) \<noteq> ''fixed'' \<and>
   snd (setup_comp (initialize\<lparr>rule := ''invalid''\<rparr>) new_component)
     = Some (ValueError rule_msg) \<and>
   comp_outputs (fst (setup_comp (initialize\<lparr>rule := ''invalid''\<rparr>) new_component)) = [] \<and>
   comp_partials (fst (setup_comp (initialize\<lparr>rule := ''invalid''\<rparr>) new_component)) = [] \<and>
   setup_run_model (initialize\<lparr>rule := ''invalid''\<rparr>) [''power_in'' \<mapsto> [100]] Map.empty
     = Inl (ValueError rule_msg)"
proof -
  have h1: "rule (initialize\<lparr>rule := ''invalid''\<rparr>) \<noteq> ''fraction''" by simp
  have h2: "rule (initialize\<lparr>rule := ''invalid''\<rparr>) \<noteq> ''fixed''" by simp
  from unknown_rule_rejected_by_setup[OF h1 h2, of "[''power_in'' \<mapsto> [100]]" Map.empty] h1 h2
  show ?thesis by simp
qed

text \<open>
  Claim C7, as stated, fails: it has the exception raised at construction and
  \<open>setup\<close> never entered. The component built with \<open>rule='invalid'\<close> exists, with all
  its options; \<open>setup\<close> is entered on it and has registered two inputs when it raises.
\<close>

theorem construction_accepts_unknown_rule:
  "initialize\<lparr>rule := ''invalid''\<rparr> =
     \<lparr>num_nodes = 1, rule = ''invalid'', efficiency = 1, weight_inc = 0, weight_base = 0,
      cost_inc = 0, cost_base = 0\<rparr> \<and>
   setup_comp (initialize\<lparr>rule := ''invalid''\<rparr>) new_component =
     (\<lparr>comp_inputs =
         [\<lparr>in_name = ''power_in'', in_val = None, in_units = Some ''W'', in_shape = 1\<rparr>,
          \<lparr>in_name = ''power_rating'', in_val = Some 99999999, in_units = Some ''W'',
            in_shape = 1\<rparr>],
        comp_outputs = [], comp_partials = []\<rparr>,
      Some (ValueError rule_msg)) \<and>
   fst (setup_comp (initialize\<lparr>rule := ''invalid''\<rparr>) new_component) \<noteq> new_component"
  by (simp add: setup_comp_def Let_def add_input_def new_component_def initialize_def)

section \<open>Energy conservation with the rounding of float64\<close>

subsection \<open>The error of one rounding\<close>

lemma pow2_powr: "pow2 e = 2 powr (of_int e)"
  by (simp add: pow2_def powr_real_of_int inverse_eq_divide)

lemma pow2_pos: "0 < pow2 e"
  by (simp add: pow2_powr)

lemma pow2_add: "pow2 (a + b) = pow2 a * pow2 b"
  by (simp add: pow2_powr powr_add)

lemma round_even_err: "\<bar>of_int (round_even q) - q\<bar> \<le> 1 / 2"
proof -
  have "of_int \<lfloor>q\<rfloor> \<le> q" "q < of_int \<lfloor>q\<rfloor> + 1"
    by linarith+
  then show ?thesis
    by (auto simp: round_even_def Let_def)
qed

lemma ulp_exp_eq:
  assumes "x \<noteq> 0" "pow2 (e + 52) \<le> \<bar>x\<bar>" "\<bar>x\<bar> < pow2 (e + 53)" "- 1074 \<le> e"
  shows "ulp_exp x = e"
proof -
  have "\<lfloor>log 2 \<bar>x\<bar>\<rfloor> = e + 52"
    using assms by (subst floor_log_eq_powr_iff) (simp_all add: pow2_powr add.commute add.assoc)
  with assms(4) show ?thesis
    by (simp add: ulp_exp_def)
qed

lemma ulp_exp_bound:
  assumes "x \<noteq> 0"
  shows "pow2 (ulp_exp x) / 2 \<le> \<bar>x\<bar> / 2 ^ 53 + 1 / 2 ^ 1075"
proof (cases "- 1074 \<le> \<lfloor>log 2 \<bar>x\<bar>\<rfloor> - 52")
  case True
  then have e: "ulp_exp x = \<lfloor>log 2 \<bar>x\<bar>\<rfloor> - 52"
    by (simp add: ulp_exp_def)
  have "2 powr (of_int \<lfloor>log 2 \<bar>x\<bar>\<rfloor>) \<le> \<bar>x\<bar>"
    using assms floor_log_eq_powr_iff[of "\<bar>x\<bar>" 2 "\<lfloor>log 2 \<bar>x\<bar>\<rfloor>"] by simp
  then have "pow2 (ulp_exp x + 52) \<le> \<bar>x\<bar>"
    by (simp add: e pow2_powr)
  then have "pow2 (ulp_exp x) * 2 ^ 52 \<le> \<bar>x\<bar>"
    by (simp add: pow2_add) (simp add: pow2_def)
  then have "pow2 (ulp_exp x) / 2 \<le> \<bar>x\<bar> / 2 ^ 53"
    by (simp add: field_simps)
  moreover have "(0::real) \<le> 1 / 2 ^ 1075"
    by simp
  ultimately show ?thesis
    by linarith
next
  case False
  then have e: "ulp_exp x = - 1074"
    by (simp add: ulp_exp_def)
  have "pow2 (- 1074) / 2 = 1 / 2 ^ 1075"
    by (simp add: pow2_def)
  then show ?thesis
    by (simp add: e)
qed

lemma round_raw_error:
  assumes "x \<noteq> 0"
  shows "\<bar>of_int (round_even (x / pow2 (ulp_exp x))) * pow2 (ulp_exp x) - x\<bar>
           \<le> \<bar>x\<bar> / 2 ^ 53 + 1 / 2 ^ 1075"
proof -
  let ?e = "ulp_exp x"
  let ?y = "of_int (round_even (x / pow2 ?e)) * pow2 ?e"
  have "?y - x = (of_int (round_even (x / pow2 ?e)) - x / pow2 ?e) * pow2 ?e"
    using pow2_pos[of ?e] by (simp add: field_simps)
  then have "\<bar>?y - x\<bar> = \<bar>of_int (round_even (x / pow2 ?e)) - x / pow2 ?e\<bar> * pow2 ?e"
    using pow2_pos[of ?e] by (simp add: abs_mult)
  also have "\<dots> \<le> (1 / 2) * pow2 ?e"
    using round_even_err[of "x / pow2 ?e"] pow2_pos[of ?e]
    by (intro mult_right_mono) simp_all
  finally have "\<bar>?y - x\<bar> \<le> pow2 ?e / 2"
    by simp
  with ulp_exp_bound[OF assms] show ?thesis
    by linarith
qed

lemma round64_error:
  assumes "round64 x = Finite y"
  shows "\<bar>y - x\<bar> \<le> \<bar>x\<bar> / 2 ^ 53 + 1 / 2 ^ 1075"
proof (cases "x = 0")
  case True
  with assms show ?thesis by (simp add: round64_def)
next
  case False
  from assms False have "y = of_int (round_even (x / pow2 (ulp_exp x))) * pow2 (ulp_exp x)"
    by (simp add: round64_def Let_def split: if_splits)
  with round_raw_error[OF False] show ?thesis
    by simp
qed

lemma round64_finite:
  assumes "\<bar>x\<bar> \<le> 2 ^ 1023"
  shows "\<exists>y. round64 x = Finite y"
proof (cases "x = 0")
  case True
  then show ?thesis by (simp add: round64_def)
next
  case False
  let ?y = "of_int (round_even (x / pow2 (ulp_exp x))) * pow2 (ulp_exp x)"
  have "\<bar>x\<bar> / 2 ^ 53 \<le> 2 ^ 1023 / 2 ^ 53"
    using assms by (intro divide_right_mono) auto
  with round_raw_error[OF False] assms have "\<bar>?y\<bar> \<le> 2 ^ 1023 + 2 ^ 1023 / 2 ^ 53 + 1 / 2 ^ 1075"
    by linarith
  also have "\<dots> < (2::real) ^ 1024"
    by simp
  finally show ?thesis
    using False by (simp add: round64_def Let_def)
qed

lemma round64_eval:
  assumes "x \<noteq> 0" "pow2 (e + 52) \<le> \<bar>x\<bar>" "\<bar>x\<bar> < pow2 (e + 53)" "- 1074 \<le> e"
  shows "round64 x =
           (let y = of_int (round_even (x / pow2 e)) * pow2 e
            in if \<bar>y\<bar> < 2 ^ 1024 then Finite y else NonFinite)"
  using assms by (simp add: round64_def ulp_exp_eq[OF assms])


subsection \<open>The outputs of \<open>compute_f64\<close> at a node\<close>

lemma compute_f64_fraction:
  assumes r: "rule opts = ''fraction''"
    and pin: "inputs ''power_in'' = Some pin" "length pin = num_nodes opts"
    and psf: "inputs ''power_split_fraction'' = Some psf" "length psf = num_nodes opts"
    and pr: "inputs ''power_rating'' = Some [pr]"
    and k: "k < num_nodes opts"
  shows "\<exists>outputs'. compute_f64 opts inputs outputs = Some outputs' \<and>
     node outputs' ''power_out_A'' k
       = Some (f_mul (f_mul (Finite (pin ! k)) (Finite (psf ! k))) (Finite (efficiency opts))) \<and>
     node outputs' ''power_out_B'' k
       = Some (f_mul (f_mul (Finite (pin ! k)) (f_sub (Finite 1) (Finite (psf ! k))))
                 (Finite (efficiency opts))) \<and>
     node outputs' ''heat_out'' k
       = Some (f_mul (Finite (pin ! k)) (f_sub (Finite 1) (Finite (efficiency opts))))"
  unfolding compute_f64_def
  using r pin psf pr k
  by (simp add: Let_def np_binop_same np_binop_scalar node_upd)

lemma compute_f64_fixed:
  assumes r: "rule opts = ''fixed''"
    and pin: "inputs ''power_in'' = Some pin" "length pin = num_nodes opts"
    and psa: "inputs ''power_split_amount'' = Some psa" "length psa = num_nodes opts"
    and pr: "inputs ''power_rating'' = Some [pr]"
    and k: "k < num_nodes opts"
  shows "\<exists>outputs'. compute_f64 opts inputs outputs = Some outputs' \<and>
     node outputs' ''power_out_A'' k
       = Some (if pin ! k < psa ! k then f_mul (Finite (pin ! k)) (Finite (efficiency opts))
               else f_mul (Finite (psa ! k)) (Finite (efficiency opts))) \<and>
     node outputs' ''power_out_B'' k
       = Some (if pin ! k < psa ! k then Finite 0
               else f_mul (f_sub (Finite (pin ! k)) (Finite (psa ! k))) (Finite (efficiency opts))) \<and>
     node outputs' ''heat_out'' k
       = Some (f_mul (Finite (pin ! k)) (f_sub (Finite 1) (Finite (efficiency opts))))"
proof -
  define n where "n = num_nodes opts"
  let ?eta = "efficiency opts"
  define lt where "lt = map2 (<) pin psa"
  define ge where "ge = map2 (\<ge>) pin psa"
  have len: "length pin = n" "length psa = n" "length lt = n" "length ge = n"
    using pin psa by (simp_all add: n_def lt_def ge_def)
  have ltk: "\<And>k. k < n \<Longrightarrow> lt ! k = (pin ! k < psa ! k)"
    and gek: "\<And>k. k < n \<Longrightarrow> ge ! k = (\<not> pin ! k < psa ! k)"
    using len by (auto simp: lt_def ge_def)
  let ?z = "map Finite (np_zeros n)"
  have zk: "\<And>k. k < n \<Longrightarrow> ?z ! k = Finite 0" and zlen: "length ?z = n"
    by (simp_all add: np_zeros_nth np_zeros_length)
  let ?A1 = "map (\<lambda>k. if lt ! k then f_mul (Finite (pin ! k)) (Finite ?eta) else ?z ! k) [0..<n]"
  have A1: "np_put ?z (np_where lt)
              (map (\<lambda>x. f_mul (Finite x) (Finite ?eta)) (map (\<lambda>i. pin ! i) (np_where lt)))
      = Some ?A1"
    using np_put_where[of ?z lt "\<lambda>i. f_mul (Finite (pin ! i)) (Finite ?eta)"] len
    by (simp add: np_zeros_length comp_def)
  have B1: "np_put ?z (np_where lt) (map Finite (map (\<lambda>i. np_zeros n ! i) (np_where lt)))
      = Some ?z"
  proof -
    have "map (\<lambda>k. if lt ! k then Finite (np_zeros n ! k) else ?z ! k) [0..<n] = ?z"
      by (intro nth_equalityI) (auto simp: np_zeros_length)
    then show ?thesis
      using np_put_where[of ?z lt "\<lambda>i. Finite (np_zeros n ! i)"] len
      by (simp add: np_zeros_length comp_def)
  qed
  let ?A2 = "map (\<lambda>k. if ge ! k then f_mul (Finite (psa ! k)) (Finite ?eta) else ?A1 ! k) [0..<n]"
  have A2: "np_put ?A1 (np_where ge)
              (map (\<lambda>x. f_mul (Finite x) (Finite ?eta)) (map (\<lambda>i. psa ! i) (np_where ge)))
      = Some ?A2"
    using np_put_where[of ?A1 ge "\<lambda>i. f_mul (Finite (psa ! i)) (Finite ?eta)"] len
    by (simp add: comp_def)
  let ?B2 = "map (\<lambda>k. if ge ! k then f_mul (f_sub (Finite (pin ! k)) (Finite (psa ! k))) (Finite ?eta)
                       else ?z ! k) [0..<n]"
  have B2: "np_put ?z (np_where ge)
       (map (\<lambda>x. f_mul x (Finite ?eta))
          (map2 (\<lambda>x y. f_sub (Finite x) (Finite y))
             (map (\<lambda>i. pin ! i) (np_where ge)) (map (\<lambda>i. psa ! i) (np_where ge))))
      = Some ?B2"
    using np_put_where[of ?z ge "\<lambda>i. f_mul (f_sub (Finite (pin ! i)) (Finite (psa ! i))) (Finite ?eta)"] len
    by (simp add: comp_def map2_map_map np_zeros_length)
  have kn: "k < n" using k by (simp add: n_def)
  have Ak: "?A2 ! k = (if pin ! k < psa ! k then f_mul (Finite (pin ! k)) (Finite ?eta)
               else f_mul (Finite (psa ! k)) (Finite ?eta))"
    using kn by (simp add: ltk gek np_zeros_nth np_zeros_length)
  have Bk: "?B2 ! k = (if pin ! k < psa ! k then Finite 0
               else f_mul (f_sub (Finite (pin ! k)) (Finite (psa ! k))) (Finite ?eta))"
    using kn by (simp add: ltk gek np_zeros_nth np_zeros_length)
  define out where "out = outputs(''power_out_A'' \<mapsto> ?A2, ''power_out_B'' \<mapsto> ?B2,
       ''heat_out'' \<mapsto> map (\<lambda>x. f_mul (Finite x) (f_sub (Finite 1) (Finite ?eta))) pin,
       ''component_cost'' \<mapsto> [f_add (f_mul (Finite pr) (Finite (cost_inc opts))) (Finite (cost_base opts))],
       ''component_weight'' \<mapsto> [f_add (f_mul (Finite pr) (Finite (weight_inc opts))) (Finite (weight_base opts))],
       ''component_sizing_margin'' \<mapsto> map (\<lambda>p. f_div p pr) pin)"
  have c: "compute_f64 opts inputs outputs = Some out"
    unfolding compute_f64_def out_def
    using r pin psa pr len A1 B1 A2 B2
    by (simp add: Let_def np_binop_same np_binop_scalar np_take_where np_zeros_length
        lt_def[symmetric] ge_def[symmetric] n_def[symmetric])
  have nA: "node out ''power_out_A'' k = Some (?A2 ! k)"
    and nB: "node out ''power_out_B'' k = Some (?B2 ! k)"
    unfolding out_def using kn by (simp_all add: node_upd del: nth_map)
  have nH: "node out ''heat_out'' k
              = Some (f_mul (Finite (pin ! k)) (f_sub (Finite 1) (Finite ?eta)))"
    unfolding out_def using kn len by (simp add: node_upd)
  show ?thesis
    using c nA nB nH unfolding Ak Bk by blast
qed


subsection \<open>Rounding errors of the outputs\<close>

lemma f_mul_Finite:
  assumes "f_mul a b = Finite z"
  obtains x y where "a = Finite x" "b = Finite y" "round64 (x * y) = Finite z"
  using assms by (cases a; cases b) auto

lemma f_sub_Finite:
  assumes "f_sub a b = Finite z"
  obtains x y where "a = Finite x" "b = Finite y" "round64 (x - y) = Finite z"
  using assms by (cases a; cases b) auto

lemma f_add_Finite:
  assumes "f_add a b = Finite z"
  obtains x y where "a = Finite x" "b = Finite y" "round64 (x + y) = Finite z"
  using assms by (cases a; cases b) auto

text \<open>Rounding a product with an exact factor of magnitude at most 1.\<close>

lemma mul_unit_err:
  assumes z: "round64 (xv * c) = Finite z"
    and xv: "\<bar>xv - x\<bar> \<le> ex" and x: "\<bar>x\<bar> \<le> P" and c: "\<bar>c\<bar> \<le> 1"
  shows "\<bar>z - x * c\<bar> \<le> ex + (P + ex) / 2 ^ 53 + 1 / 2 ^ 1075"
proof -
  have "\<bar>xv\<bar> \<le> P + ex"
    using xv x by linarith
  moreover have "0 \<le> P + ex"
    using xv x by linarith
  ultimately have m: "\<bar>xv * c\<bar> \<le> P + ex"
    using c by (simp add: abs_mult) (metis abs_ge_zero mult_mono mult.right_neutral)
  have "\<bar>xv * c - x * c\<bar> = \<bar>xv - x\<bar> * \<bar>c\<bar>"
    by (simp add: abs_mult[symmetric] algebra_simps)
  also have "\<dots> \<le> ex * 1"
    using xv c by (intro mult_mono) auto
  finally have d: "\<bar>xv * c - x * c\<bar> \<le> ex"
    by simp
  from round64_error[OF z] have "\<bar>z - xv * c\<bar> \<le> \<bar>xv * c\<bar> / 2 ^ 53 + 1 / 2 ^ 1075" .
  moreover have "\<bar>xv * c\<bar> / 2 ^ 53 \<le> (P + ex) / 2 ^ 53"
    using m by (simp add: divide_right_mono)
  ultimately show ?thesis
    using d by linarith
qed

text \<open>Rounding a product of an exact factor and a rounded factor of magnitude about 1.\<close>

lemma mul_scale_err:
  assumes z: "round64 (p * gv) = Finite z"
    and gv: "\<bar>gv - g\<bar> \<le> eg" and g: "\<bar>g\<bar> \<le> 1" and p: "\<bar>p\<bar> \<le> P"
  shows "\<bar>z - p * g\<bar> \<le> P * eg + (P + P * eg) / 2 ^ 53 + 1 / 2 ^ 1075"
proof -
  have eg0: "0 \<le> eg" using gv by linarith
  have P0: "0 \<le> P" using p by linarith
  have "\<bar>gv\<bar> \<le> 1 + eg"
    using gv g by linarith
  then have "\<bar>p\<bar> * \<bar>gv\<bar> \<le> P * (1 + eg)"
    using p eg0 by (intro mult_mono) auto
  then have m: "\<bar>p * gv\<bar> \<le> P + P * eg"
    by (simp add: abs_mult algebra_simps)
  have "\<bar>p * gv - p * g\<bar> = \<bar>p\<bar> * \<bar>gv - g\<bar>"
    by (simp add: abs_mult[symmetric] algebra_simps)
  also have "\<dots> \<le> P * eg"
    using gv p by (intro mult_mono) auto
  finally have d: "\<bar>p * gv - p * g\<bar> \<le> P * eg" .
  from round64_error[OF z] have "\<bar>z - p * gv\<bar> \<le> \<bar>p * gv\<bar> / 2 ^ 53 + 1 / 2 ^ 1075" .
  moreover have "\<bar>p * gv\<bar> / 2 ^ 53 \<le> (P + P * eg) / 2 ^ 53"
    using m by (simp add: divide_right_mono)
  ultimately show ?thesis
    using d by linarith
qed

text \<open>The complement \<open>1 - c\<close> of a number between 0 and 1, rounded.\<close>

lemma complement_err:
  assumes "round64 (1 - c) = Finite gv" "0 \<le> c" "c \<le> 1"
  shows "\<bar>gv - (1 - c)\<bar> \<le> 1 / 2 ^ 53 + 1 / 2 ^ 1075"
proof -
  have "\<bar>1 - c\<bar> / 2 ^ 53 \<le> 1 / 2 ^ 53"
    using assms(2,3) by (intro divide_right_mono) auto
  with round64_error[OF assms(1)] show ?thesis
    by linarith
qed

text \<open>The waste heat \<open>p * (1 - eta)\<close>.\<close>

lemma heat_err:
  assumes h: "f_mul (Finite p) (f_sub (Finite 1) (Finite eta)) = Finite h"
    and eta: "0 \<le> eta" "eta \<le> 1"
  shows "\<bar>h - p * (1 - eta)\<bar>
           \<le> \<bar>p\<bar> * (1 / 2 ^ 53 + 1 / 2 ^ 1075)
             + (\<bar>p\<bar> + \<bar>p\<bar> * (1 / 2 ^ 53 + 1 / 2 ^ 1075)) / 2 ^ 53 + 1 / 2 ^ 1075"
proof -
  from h obtain gv where g: "round64 (1 - eta) = Finite gv" and z: "round64 (p * gv) = Finite h"
    by (auto elim!: f_mul_Finite)
  show ?thesis
    by (rule mul_scale_err[OF z complement_err[OF g eta]]) (use eta in auto)
qed


lemma frac_A_err:
  assumes a: "f_mul (f_mul (Finite p) (Finite f)) (Finite eta) = Finite a"
    and f: "0 \<le> f" "f \<le> 1" and eta: "0 \<le> eta" "eta \<le> 1"
  shows "\<bar>a - p * f * eta\<bar>
           \<le> (\<bar>p\<bar> / 2 ^ 53 + 1 / 2 ^ 1075)
             + (\<bar>p\<bar> + (\<bar>p\<bar> / 2 ^ 53 + 1 / 2 ^ 1075)) / 2 ^ 53 + 1 / 2 ^ 1075"
proof -
  from a obtain t where t: "round64 (p * f) = Finite t" and z: "round64 (t * eta) = Finite a"
    by (auto elim!: f_mul_Finite)
  have pf: "\<bar>p * f\<bar> \<le> \<bar>p\<bar>"
    using f by (simp add: abs_mult mult_left_le)
  then have "\<bar>p * f\<bar> / 2 ^ 53 \<le> \<bar>p\<bar> / 2 ^ 53"
    by (simp add: divide_right_mono)
  with round64_error[OF t] have e: "\<bar>t - p * f\<bar> \<le> \<bar>p\<bar> / 2 ^ 53 + 1 / 2 ^ 1075"
    by linarith
  show ?thesis
    by (rule mul_unit_err[OF z e pf]) (use eta in auto)
qed

lemma frac_B_err:
  assumes b: "f_mul (f_mul (Finite p) (f_sub (Finite 1) (Finite f))) (Finite eta) = Finite b"
    and f: "0 \<le> f" "f \<le> 1" and eta: "0 \<le> eta" "eta \<le> 1"
  shows "\<bar>b - p * (1 - f) * eta\<bar>
           \<le> (\<bar>p\<bar> * (1 / 2 ^ 53 + 1 / 2 ^ 1075)
                + (\<bar>p\<bar> + \<bar>p\<bar> * (1 / 2 ^ 53 + 1 / 2 ^ 1075)) / 2 ^ 53 + 1 / 2 ^ 1075)
             + (\<bar>p\<bar> + (\<bar>p\<bar> * (1 / 2 ^ 53 + 1 / 2 ^ 1075)
                + (\<bar>p\<bar> + \<bar>p\<bar> * (1 / 2 ^ 53 + 1 / 2 ^ 1075)) / 2 ^ 53 + 1 / 2 ^ 1075)) / 2 ^ 53
             + 1 / 2 ^ 1075"
proof -
  from b obtain gv t where g: "round64 (1 - f) = Finite gv"
    and t: "round64 (p * gv) = Finite t" and z: "round64 (t * eta) = Finite b"
    by (auto elim!: f_mul_Finite f_sub_Finite)
  have e: "\<bar>t - p * (1 - f)\<bar>
             \<le> \<bar>p\<bar> * (1 / 2 ^ 53 + 1 / 2 ^ 1075)
               + (\<bar>p\<bar> + \<bar>p\<bar> * (1 / 2 ^ 53 + 1 / 2 ^ 1075)) / 2 ^ 53 + 1 / 2 ^ 1075"
    by (rule mul_scale_err[OF t complement_err[OF g f]]) (use f in auto)
  have pf: "\<bar>p * (1 - f)\<bar> \<le> \<bar>p\<bar>"
    using f by (simp add: abs_mult mult_left_le)
  show ?thesis
    by (rule mul_unit_err[OF z e pf]) (use eta in auto)
qed

lemma fixed_A_err:
  assumes a: "f_mul (Finite x) (Finite eta) = Finite a"
    and x: "\<bar>x\<bar> \<le> P" and eta: "0 \<le> eta" "eta \<le> 1"
  shows "\<bar>a - x * eta\<bar> \<le> P / 2 ^ 53 + 1 / 2 ^ 1075"
proof -
  from a have z: "round64 (x * eta) = Finite a"
    by simp
  have "\<bar>a - x * eta\<bar> \<le> 0 + (P + 0) / 2 ^ 53 + 1 / 2 ^ 1075"
    by (rule mul_unit_err[OF z _ x]) (use eta in auto)
  then show ?thesis
    by simp
qed

lemma fixed_B_err:
  assumes b: "f_mul (f_sub (Finite p) (Finite s)) (Finite eta) = Finite b"
    and s: "0 \<le> s" "s \<le> p" and eta: "0 \<le> eta" "eta \<le> 1"
  shows "\<bar>b - (p - s) * eta\<bar>
           \<le> (\<bar>p\<bar> / 2 ^ 53 + 1 / 2 ^ 1075)
             + (\<bar>p\<bar> + (\<bar>p\<bar> / 2 ^ 53 + 1 / 2 ^ 1075)) / 2 ^ 53 + 1 / 2 ^ 1075"
proof -
  from b obtain r where r: "round64 (p - s) = Finite r" and z: "round64 (r * eta) = Finite b"
    by (auto elim!: f_mul_Finite f_sub_Finite)
  have ps: "\<bar>p - s\<bar> \<le> \<bar>p\<bar>"
    using s by linarith
  then have "\<bar>p - s\<bar> / 2 ^ 53 \<le> \<bar>p\<bar> / 2 ^ 53"
    by (simp add: divide_right_mono)
  with round64_error[OF r] have e: "\<bar>r - (p - s)\<bar> \<le> \<bar>p\<bar> / 2 ^ 53 + 1 / 2 ^ 1075"
    by linarith
  show ?thesis
    by (rule mul_unit_err[OF z e ps]) (use eta in auto)
qed

text \<open>The three error bounds together stay below the tolerance.\<close>

lemma tolerance_sum:
  fixes P :: real
  assumes "0 \<le> P"
  shows "((P / 2 ^ 53 + 1 / 2 ^ 1075)
            + (P + (P / 2 ^ 53 + 1 / 2 ^ 1075)) / 2 ^ 53 + 1 / 2 ^ 1075)
         + ((P * (1 / 2 ^ 53 + 1 / 2 ^ 1075)
                + (P + P * (1 / 2 ^ 53 + 1 / 2 ^ 1075)) / 2 ^ 53 + 1 / 2 ^ 1075)
             + (P + (P * (1 / 2 ^ 53 + 1 / 2 ^ 1075)
                + (P + P * (1 / 2 ^ 53 + 1 / 2 ^ 1075)) / 2 ^ 53 + 1 / 2 ^ 1075)) / 2 ^ 53
             + 1 / 2 ^ 1075)
         + (P * (1 / 2 ^ 53 + 1 / 2 ^ 1075)
             + (P + P * (1 / 2 ^ 53 + 1 / 2 ^ 1075)) / 2 ^ 53 + 1 / 2 ^ 1075)
         \<le> P / 2 ^ 50 + 1 / 2 ^ 1070"
  using assms by (simp add: field_simps)


subsection \<open>No overflow\<close>

lemma fin_step:
  assumes "\<bar>x\<bar> \<le> B" "B \<le> 2 ^ 1023"
  shows "\<exists>y. round64 x = Finite y \<and> \<bar>y\<bar> \<le> B + B / 2 ^ 53 + 1 / 2 ^ 1075"
proof -
  from assms have "\<bar>x\<bar> \<le> 2 ^ 1023" by linarith
  from round64_finite[OF this] obtain y where y: "round64 x = Finite y" ..
  have "\<bar>x\<bar> / 2 ^ 53 \<le> B / 2 ^ 53"
    using assms(1) by (intro divide_right_mono) auto
  with round64_error[OF y] assms(1) have "\<bar>y\<bar> \<le> B + B / 2 ^ 53 + 1 / 2 ^ 1075"
    by linarith
  with y show ?thesis by blast
qed

lemma mul_unit_bound:
  fixes x c B :: real
  assumes "\<bar>x\<bar> \<le> B" "\<bar>c\<bar> \<le> 1"
  shows "\<bar>x * c\<bar> \<le> B"
proof -
  have "0 \<le> B" using assms(1) by linarith
  then have "\<bar>x\<bar> * \<bar>c\<bar> \<le> B * 1"
    by (intro mult_mono) (use assms in auto)
  then show ?thesis by (simp add: abs_mult)
qed

lemma two_roundings_fin:
  assumes x: "\<bar>x\<bar> \<le> 2 ^ 1022" and c: "\<bar>c\<bar> \<le> 1"
  shows "\<exists>t z. round64 x = Finite t \<and> round64 (t * c) = Finite z"
proof -
  have "(2::real) ^ 1022 \<le> 2 ^ 1023"
    by simp
  from fin_step[OF x this] obtain t
    where t: "round64 x = Finite t" and tb: "\<bar>t\<bar> \<le> 2 ^ 1022 + 2 ^ 1022 / 2 ^ 53 + 1 / 2 ^ 1075"
    by auto
  have "\<bar>t * c\<bar> \<le> 2 ^ 1022 + 2 ^ 1022 / 2 ^ 53 + 1 / 2 ^ 1075"
    by (rule mul_unit_bound[OF tb c])
  moreover have "(2::real) ^ 1022 + 2 ^ 1022 / 2 ^ 53 + 1 / 2 ^ 1075 \<le> 2 ^ 1023"
    by simp
  ultimately have "\<bar>t * c\<bar> \<le> 2 ^ 1023"
    by linarith
  from round64_finite[OF this] t show ?thesis
    by blast
qed

lemma frac_A_fin:
  assumes p: "\<bar>p\<bar> \<le> 2 ^ 1022" and f: "0 \<le> f" "f \<le> 1" and eta: "0 \<le> eta" "eta \<le> 1"
  shows "\<exists>a. f_mul (f_mul (Finite p) (Finite f)) (Finite eta) = Finite a"
proof -
  have "\<bar>p * f\<bar> \<le> 2 ^ 1022"
    by (rule mul_unit_bound[OF p]) (use f in auto)
  from two_roundings_fin[OF this, of eta] eta show ?thesis
    by auto
qed

lemma complement_fin:
  assumes "0 \<le> c" "c \<le> 1"
  shows "\<exists>g. round64 (1 - c) = Finite g \<and> \<bar>g\<bar> \<le> 1 + 1 / 2 ^ 52"
proof -
  have "\<bar>1 - c\<bar> \<le> 1" using assms by auto
  moreover have "(1::real) \<le> 2 ^ 1023" by simp
  ultimately obtain g
    where g: "round64 (1 - c) = Finite g" and gb: "\<bar>g\<bar> \<le> 1 + 1 / 2 ^ 53 + 1 / 2 ^ 1075"
    using fin_step[of "1 - c" 1] by auto
  have "(1::real) + 1 / 2 ^ 53 + 1 / 2 ^ 1075 \<le> 1 + 1 / 2 ^ 52"
    by simp
  with g gb show ?thesis
    by (intro exI[of _ g]) linarith
qed

lemma scale_fin:
  assumes p: "\<bar>p\<bar> \<le> 2 ^ 1022" and g: "\<bar>g\<bar> \<le> 1 + 1 / 2 ^ 52"
  shows "\<exists>t. round64 (p * g) = Finite t \<and> \<bar>t\<bar> \<le> 2 ^ 1023"
proof -
  have "\<bar>p\<bar> * \<bar>g\<bar> \<le> 2 ^ 1022 * (1 + 1 / 2 ^ 52)"
    using p g by (intro mult_mono) auto
  then have b: "\<bar>p * g\<bar> \<le> 2 ^ 1022 * (1 + 1 / 2 ^ 52)"
    by (simp add: abs_mult)
  have le: "(2::real) ^ 1022 * (1 + 1 / 2 ^ 52) \<le> 2 ^ 1023"
    by simp
  from fin_step[OF b le] obtain t where t: "round64 (p * g) = Finite t"
    and tb: "\<bar>t\<bar> \<le> 2 ^ 1022 * (1 + 1 / 2 ^ 52) + 2 ^ 1022 * (1 + 1 / 2 ^ 52) / 2 ^ 53 + 1 / 2 ^ 1075"
    by auto
  have "(2::real) ^ 1022 * (1 + 1 / 2 ^ 52) + 2 ^ 1022 * (1 + 1 / 2 ^ 52) / 2 ^ 53 + 1 / 2 ^ 1075
          \<le> 2 ^ 1023"
    by simp
  with t tb show ?thesis
    by (intro exI[of _ t]) linarith
qed

lemma heat_fin:
  assumes p: "\<bar>p\<bar> \<le> 2 ^ 1022" and eta: "0 \<le> eta" "eta \<le> 1"
  shows "\<exists>h. f_mul (Finite p) (f_sub (Finite 1) (Finite eta)) = Finite h"
proof -
  from complement_fin[OF eta] obtain g
    where g: "round64 (1 - eta) = Finite g" and gb: "\<bar>g\<bar> \<le> 1 + 1 / 2 ^ 52"
    by auto
  from scale_fin[OF p gb] g show ?thesis
    by auto
qed

lemma frac_B_fin:
  assumes p: "\<bar>p\<bar> \<le> 2 ^ 1022" and f: "0 \<le> f" "f \<le> 1" and eta: "0 \<le> eta" "eta \<le> 1"
  shows "\<exists>b. f_mul (f_mul (Finite p) (f_sub (Finite 1) (Finite f))) (Finite eta) = Finite b"
proof -
  from complement_fin[OF f] obtain g
    where g: "round64 (1 - f) = Finite g" and gb: "\<bar>g\<bar> \<le> 1 + 1 / 2 ^ 52"
    by auto
  from scale_fin[OF p gb] obtain t
    where t: "round64 (p * g) = Finite t" and tb: "\<bar>t\<bar> \<le> 2 ^ 1023"
    by auto
  have "\<bar>t * eta\<bar> \<le> 2 ^ 1023"
    by (rule mul_unit_bound[OF tb]) (use eta in auto)
  from round64_finite[OF this] g t show ?thesis
    by auto
qed

lemma fixed_A_fin:
  assumes x: "\<bar>x\<bar> \<le> 2 ^ 1022" and eta: "0 \<le> eta" "eta \<le> 1"
  shows "\<exists>a. f_mul (Finite x) (Finite eta) = Finite a"
proof -
  have "\<bar>x * eta\<bar> \<le> 2 ^ 1022"
    by (rule mul_unit_bound[OF x]) (use eta in auto)
  moreover have "(2::real) ^ 1022 \<le> 2 ^ 1023"
    by simp
  ultimately have "\<bar>x * eta\<bar> \<le> 2 ^ 1023"
    by linarith
  from round64_finite[OF this] show ?thesis
    by auto
qed

lemma fixed_B_fin:
  assumes p: "\<bar>p\<bar> \<le> 2 ^ 1022" and s: "0 \<le> s" "s \<le> p" and eta: "0 \<le> eta" "eta \<le> 1"
  shows "\<exists>b. f_mul (f_sub (Finite p) (Finite s)) (Finite eta) = Finite b"
proof -
  have "\<bar>p - s\<bar> \<le> 2 ^ 1022"
    using p s by linarith
  from two_roundings_fin[OF this, of eta] eta show ?thesis
    by auto
qed


subsection \<open>The tolerance\<close>

lemma tolerance_sum_fixed:
  fixes P :: real
  assumes "0 \<le> P"
  shows "(P / 2 ^ 53 + 1 / 2 ^ 1075)
         + ((P / 2 ^ 53 + 1 / 2 ^ 1075)
             + (P + (P / 2 ^ 53 + 1 / 2 ^ 1075)) / 2 ^ 53 + 1 / 2 ^ 1075)
         + (P * (1 / 2 ^ 53 + 1 / 2 ^ 1075)
             + (P + P * (1 / 2 ^ 53 + 1 / 2 ^ 1075)) / 2 ^ 53 + 1 / 2 ^ 1075)
         \<le> P / 2 ^ 50 + 1 / 2 ^ 1070"
    and "(P / 2 ^ 53 + 1 / 2 ^ 1075) + 0
         + (P * (1 / 2 ^ 53 + 1 / 2 ^ 1075)
             + (P + P * (1 / 2 ^ 53 + 1 / 2 ^ 1075)) / 2 ^ 53 + 1 / 2 ^ 1075)
         \<le> P / 2 ^ 50 + 1 / 2 ^ 1070"
  using assms by (simp_all add: field_simps)

lemma float_sum_arith:
  fixes P :: real
  assumes "0 \<le> P"
  shows "(P + (P / 2 ^ 50 + 1 / 2 ^ 1070) + (P + (P / 2 ^ 50 + 1 / 2 ^ 1070)) / 2 ^ 53
            + 1 / 2 ^ 1075) / 2 ^ 53 + 1 / 2 ^ 1075
         + ((P / 2 ^ 50 + 1 / 2 ^ 1070) + (P + (P / 2 ^ 50 + 1 / 2 ^ 1070)) / 2 ^ 53 + 1 / 2 ^ 1075)
         \<le> P / 2 ^ 49 + 1 / 2 ^ 1069"
  using assms by (simp add: field_simps)

lemma conservation_bounds:
  fixes a b h a0 b0 h0 p :: real
  assumes sum: "a0 + b0 + h0 = p" and ab: "\<bar>a0 + b0\<bar> \<le> \<bar>p\<bar>"
    and A: "\<bar>a - a0\<bar> \<le> EA" and B: "\<bar>b - b0\<bar> \<le> EB" and H: "\<bar>h - h0\<bar> \<le> EH"
    and E: "EA + EB + EH \<le> \<bar>p\<bar> / 2 ^ 50 + 1 / 2 ^ 1070"
  shows "\<bar>a + b + h - p\<bar> \<le> \<bar>p\<bar> / 2 ^ 50 + 1 / 2 ^ 1070 \<and>
         (\<forall>s. f_add (f_add (Finite a) (Finite b)) (Finite h) = Finite s \<longrightarrow>
              \<bar>s - p\<bar> \<le> \<bar>p\<bar> / 2 ^ 49 + 1 / 2 ^ 1069)"
proof (intro conjI allI impI)
  let ?P = "\<bar>p\<bar>"
  let ?T = "?P / 2 ^ 50 + 1 / 2 ^ 1070"
  show exact: "\<bar>a + b + h - p\<bar> \<le> ?T"
    using sum A B H E by linarith
  fix s
  assume "f_add (f_add (Finite a) (Finite b)) (Finite h) = Finite s"
  then obtain t where t: "round64 (a + b) = Finite t" and s: "round64 (t + h) = Finite s"
    by (auto elim!: f_add_Finite)
  have "\<bar>a + b\<bar> \<le> ?P + ?T"
    using ab A B H E by linarith
  then have "\<bar>a + b\<bar> / 2 ^ 53 \<le> (?P + ?T) / 2 ^ 53"
    by (intro divide_right_mono) auto
  with round64_error[OF t] have et: "\<bar>t - (a + b)\<bar> \<le> (?P + ?T) / 2 ^ 53 + 1 / 2 ^ 1075"
    by linarith
  have "\<bar>t + h\<bar> \<le> ?P + ?T + (?P + ?T) / 2 ^ 53 + 1 / 2 ^ 1075"
    using exact et by linarith
  then have "\<bar>t + h\<bar> / 2 ^ 53
              \<le> (?P + ?T + (?P + ?T) / 2 ^ 53 + 1 / 2 ^ 1075) / 2 ^ 53"
    by (intro divide_right_mono) auto
  with round64_error[OF s]
  have es: "\<bar>s - (t + h)\<bar>
              \<le> (?P + ?T + (?P + ?T) / 2 ^ 53 + 1 / 2 ^ 1075) / 2 ^ 53 + 1 / 2 ^ 1075"
    by linarith
  have "\<bar>s - p\<bar> \<le> (?P + ?T + (?P + ?T) / 2 ^ 53 + 1 / 2 ^ 1075) / 2 ^ 53 + 1 / 2 ^ 1075
                  + (?T + (?P + ?T) / 2 ^ 53 + 1 / 2 ^ 1075)"
    using es et exact by linarith
  also have "\<dots> \<le> ?P / 2 ^ 49 + 1 / 2 ^ 1069"
    by (rule float_sum_arith) simp
  finally show "\<bar>s - p\<bar> \<le> ?P / 2 ^ 49 + 1 / 2 ^ 1069" .
qed

subsection \<open>Roundings at particular numbers\<close>

lemma round64_0: "round64 0 = Finite 0"
  by (simp add: round64_def)

lemma round64_1e19: "round64 10000000000000000000 = Finite 10000000000000000000"
  by (subst round64_eval[where e = 11]) (simp_all add: pow2_def round_even_def Let_def)

lemma round64_5e18: "round64 5000000000000000000 = Finite 5000000000000000000"
  by (subst round64_eval[where e = 10]) (simp_all add: pow2_def round_even_def Let_def)

lemma round64_m1e19: "round64 (- 10000000000000000000) = Finite (- 10000000000000000000)"
  by (subst round64_eval[where e = 11]) (simp_all add: pow2_def round_even_def Let_def)

lemma round64_m5e18: "round64 (- 5000000000000000000) = Finite (- 5000000000000000000)"
  by (subst round64_eval[where e = 10]) (simp_all add: pow2_def round_even_def Let_def)

lemma round64_1_minus_1e17: "round64 (- 99999999999999999) = Finite (- 100000000000000000)"
  by (subst round64_eval[where e = 4]) (simp_all add: pow2_def round_even_def Let_def)

lemma round64_half: "round64 (1 / 2) = Finite (1 / 2)"
  by (subst round64_eval[where e = "- 53"]) (simp_all add: pow2_def round_even_def Let_def)

lemma round64_50: "round64 50 = Finite 50"
  by (subst round64_eval[where e = "- 47"]) (simp_all add: pow2_def round_even_def Let_def)

lemma round64_100: "round64 100 = Finite 100"
  by (subst round64_eval[where e = "- 46"]) (simp_all add: pow2_def round_even_def Let_def)

lemmas round64_values_a = round64_0 round64_1e19 round64_5e18 round64_m1e19 round64_m5e18
  round64_1_minus_1e17 round64_half round64_50 round64_100

lemma round64_p_half: "round64 (9007199254740991 / 2) = Finite (9007199254740991 / 2)"
  by (subst round64_eval[where e = "- 1"]) (simp_all add: pow2_def round_even_def Let_def)

lemma round64_p_5_16: "round64 (45035996273704955 / 16) = Finite (5629499534213119 / 2)"
  by (subst round64_eval[where e = "- 1"]) (simp_all add: pow2_def round_even_def Let_def)

lemma round64_3_8: "round64 (3 / 8) = Finite (3 / 8)"
  by (subst round64_eval[where e = "- 54"]) (simp_all add: pow2_def round_even_def Let_def)

lemma round64_p_3_8: "round64 (27021597764222973 / 8) = Finite (6755399441055743 / 2)"
  by (subst round64_eval[where e = "- 1"]) (simp_all add: pow2_def round_even_def Let_def)

lemma round64_p: "round64 9007199254740991 = Finite 9007199254740991"
  by (subst round64_eval[where e = 0]) (simp_all add: pow2_def round_even_def Let_def)

lemma round64_ab: "round64 5629499534213119 = Finite 5629499534213119"
  by (subst round64_eval[where e = 0]) (simp_all add: pow2_def round_even_def Let_def)

lemma round64_abh: "round64 (18014398509481981 / 2) = Finite 9007199254740990"
  by (subst round64_eval[where e = 0]) (simp_all add: pow2_def round_even_def Let_def)

lemmas round64_values_b = round64_0 round64_half round64_p_half round64_p_5_16 round64_3_8
  round64_p_3_8 round64_p round64_ab round64_abh

subsection \<open>The sum of the outputs\<close>

text \<open>
  Claim C1, as amended. Under either rule, with an efficiency between 0 and 1 and a
  split input within its range (a fraction between 0 and 1, or an amount that is not
  negative), \<open>compute\<close> in float64 arithmetic returns, and at every node where the
  three outputs are finite their sum differs from \<open>power_in\<close> by at most
  \<open>\<bar>power_in\<bar> / 2 ^ 50 + 1 / 2 ^ 1070\<close>; the sum formed in float64, as
  \<open>(power_out_A + power_out_B) + heat_out\<close>, differs from it by at most
  \<open>\<bar>power_in\<bar> / 2 ^ 49 + 1 / 2 ^ 1069\<close>. The three outputs are finite when
  \<open>\<bar>power_in\<bar> \<le> 2 ^ 1022\<close>.
\<close>

theorem energy_conservation_rounded:
  assumes rule: "rule opts = ''fraction'' \<or> rule opts = ''fixed''"
    and conf: "conforms (fst (setup_comp opts new_component)) inputs"
    and pin: "inputs ''power_in'' = Some power_in"
    and sp: "inputs (if rule opts = ''fraction'' then ''power_split_fraction''
                     else ''power_split_amount'') = Some split"
    and k: "k < num_nodes opts"
    and eta: "0 \<le> efficiency opts" "efficiency opts \<le> 1"
    and sp0: "0 \<le> split ! k"
    and sp1: "rule opts = ''fraction'' \<longrightarrow> split ! k \<le> 1"
  shows "\<exists>outputs'.
           compute_f64 opts inputs outputs = Some outputs' \<and>
           (\<forall>a b h.
              node outputs' ''power_out_A'' k = Some (Finite a) \<and>
              node outputs' ''power_out_B'' k = Some (Finite b) \<and>
              node outputs' ''heat_out'' k = Some (Finite h) \<longrightarrow>
              \<bar>a + b + h - power_in ! k\<bar> \<le> \<bar>power_in ! k\<bar> / 2 ^ 50 + 1 / 2 ^ 1070 \<and>
              (\<forall>s. f_add (f_add (Finite a) (Finite b)) (Finite h) = Finite s \<longrightarrow>
                   \<bar>s - power_in ! k\<bar> \<le> \<bar>power_in ! k\<bar> / 2 ^ 49 + 1 / 2 ^ 1069)) \<and>
           (\<bar>power_in ! k\<bar> \<le> 2 ^ 1022 \<longrightarrow>
              (\<exists>a b h.
                 node outputs' ''power_out_A'' k = Some (Finite a) \<and>
                 node outputs' ''power_out_B'' k = Some (Finite b) \<and>
                 node outputs' ''heat_out'' k = Some (Finite h)))"
proof -
  let ?p = "power_in ! k"
  let ?s = "split ! k"
  let ?eta = "efficiency opts"
  from conforms_common[OF conf] pin obtain pr
    where len: "length power_in = num_nodes opts" and pr: "inputs ''power_rating'' = Some [pr]"
    by auto
  have P0: "0 \<le> \<bar>?p\<bar>" by simp
  have ab: "\<bar>?p * ?eta\<bar> \<le> \<bar>?p\<bar>"
    by (rule mul_unit_bound) (use eta in auto)
  from rule show ?thesis
  proof
    assume fr: "rule opts = ''fraction''"
    with sp have psf: "inputs ''power_split_fraction'' = Some split"
      by simp
    from conforms_fraction[OF conf fr] psf have len': "length split = num_nodes opts"
      by auto
    from sp1 fr have s1: "?s \<le> 1"
      by simp
    from compute_f64_fraction[OF fr pin len psf len' pr k, of outputs] obtain out
      where c: "compute_f64 opts inputs outputs = Some out"
        and nA: "node out ''power_out_A'' k
                   = Some (f_mul (f_mul (Finite ?p) (Finite ?s)) (Finite ?eta))"
        and nB: "node out ''power_out_B'' k
                   = Some (f_mul (f_mul (Finite ?p) (f_sub (Finite 1) (Finite ?s))) (Finite ?eta))"
        and nH: "node out ''heat_out'' k = Some (f_mul (Finite ?p) (f_sub (Finite 1) (Finite ?eta)))"
      by blast
    have bound: "\<bar>a + b + h - ?p\<bar> \<le> \<bar>?p\<bar> / 2 ^ 50 + 1 / 2 ^ 1070 \<and>
          (\<forall>s. f_add (f_add (Finite a) (Finite b)) (Finite h) = Finite s \<longrightarrow>
               \<bar>s - ?p\<bar> \<le> \<bar>?p\<bar> / 2 ^ 49 + 1 / 2 ^ 1069)"
      if "node out ''power_out_A'' k = Some (Finite a)"
        and "node out ''power_out_B'' k = Some (Finite b)"
        and "node out ''heat_out'' k = Some (Finite h)" for a b h
    proof -
      from that nA nB nH
      have a: "f_mul (f_mul (Finite ?p) (Finite ?s)) (Finite ?eta) = Finite a"
        and b: "f_mul (f_mul (Finite ?p) (f_sub (Finite 1) (Finite ?s))) (Finite ?eta) = Finite b"
        and h: "f_mul (Finite ?p) (f_sub (Finite 1) (Finite ?eta)) = Finite h"
        by simp_all
      have sum: "?p * ?s * ?eta + ?p * (1 - ?s) * ?eta + ?p * (1 - ?eta) = ?p"
        by (simp add: algebra_simps)
      have ab': "\<bar>?p * ?s * ?eta + ?p * (1 - ?s) * ?eta\<bar> \<le> \<bar>?p\<bar>"
        using ab by (simp add: algebra_simps)
      show ?thesis
        by (rule conservation_bounds[OF sum ab' frac_A_err[OF a sp0 s1 eta]
              frac_B_err[OF b sp0 s1 eta] heat_err[OF h eta] tolerance_sum[OF P0]])
    qed
    have fin: "\<exists>a b h.
                 node out ''power_out_A'' k = Some (Finite a) \<and>
                 node out ''power_out_B'' k = Some (Finite b) \<and>
                 node out ''heat_out'' k = Some (Finite h)"
      if p: "\<bar>?p\<bar> \<le> 2 ^ 1022"
      using frac_A_fin[OF p sp0 s1 eta] frac_B_fin[OF p sp0 s1 eta] heat_fin[OF p eta] nA nB nH
      by auto
    from c bound fin show ?thesis
      by blast
  next
    assume fx: "rule opts = ''fixed''"
    with sp have psa: "inputs ''power_split_amount'' = Some split"
      by simp
    from conforms_fixed[OF conf fx] psa have len': "length split = num_nodes opts"
      by auto
    from compute_f64_fixed[OF fx pin len psa len' pr k, of outputs] obtain out
      where c: "compute_f64 opts inputs outputs = Some out"
        and nA: "node out ''power_out_A'' k
                   = Some (if ?p < ?s then f_mul (Finite ?p) (Finite ?eta)
                           else f_mul (Finite ?s) (Finite ?eta))"
        and nB: "node out ''power_out_B'' k
                   = Some (if ?p < ?s then Finite 0
                           else f_mul (f_sub (Finite ?p) (Finite ?s)) (Finite ?eta))"
        and nH: "node out ''heat_out'' k = Some (f_mul (Finite ?p) (f_sub (Finite 1) (Finite ?eta)))"
      by blast
    have bound: "\<bar>a + b + h - ?p\<bar> \<le> \<bar>?p\<bar> / 2 ^ 50 + 1 / 2 ^ 1070 \<and>
          (\<forall>s. f_add (f_add (Finite a) (Finite b)) (Finite h) = Finite s \<longrightarrow>
               \<bar>s - ?p\<bar> \<le> \<bar>?p\<bar> / 2 ^ 49 + 1 / 2 ^ 1069)"
      if nodes: "node out ''power_out_A'' k = Some (Finite a)"
        "node out ''power_out_B'' k = Some (Finite b)"
        "node out ''heat_out'' k = Some (Finite h)" for a b h
    proof (cases "?p < ?s")
      case True
      from nodes nA nB nH True
      have a: "f_mul (Finite ?p) (Finite ?eta) = Finite a" and b: "b = 0"
        and h: "f_mul (Finite ?p) (f_sub (Finite 1) (Finite ?eta)) = Finite h"
        by simp_all
      have sum: "?p * ?eta + 0 + ?p * (1 - ?eta) = ?p"
        by (simp add: algebra_simps)
      have ab': "\<bar>?p * ?eta + 0\<bar> \<le> \<bar>?p\<bar>"
        using ab by simp
      have eb: "\<bar>b - 0\<bar> \<le> 0"
        using b by simp
      show ?thesis
        by (rule conservation_bounds[OF sum ab' fixed_A_err[OF a order_refl eta] eb
              heat_err[OF h eta] tolerance_sum_fixed(2)[OF P0]])
    next
      case False
      with sp0 have s: "0 \<le> ?s" "?s \<le> ?p"
        by simp_all
      from nodes nA nB nH False
      have a: "f_mul (Finite ?s) (Finite ?eta) = Finite a"
        and b: "f_mul (f_sub (Finite ?p) (Finite ?s)) (Finite ?eta) = Finite b"
        and h: "f_mul (Finite ?p) (f_sub (Finite 1) (Finite ?eta)) = Finite h"
        by simp_all
      have sum: "?s * ?eta + (?p - ?s) * ?eta + ?p * (1 - ?eta) = ?p"
        by (simp add: algebra_simps)
      have ab': "\<bar>?s * ?eta + (?p - ?s) * ?eta\<bar> \<le> \<bar>?p\<bar>"
        using ab by (simp add: algebra_simps)
      have sP: "\<bar>?s\<bar> \<le> \<bar>?p\<bar>"
        using s by linarith
      show ?thesis
        by (rule conservation_bounds[OF sum ab' fixed_A_err[OF a sP eta] fixed_B_err[OF b s eta]
              heat_err[OF h eta] tolerance_sum_fixed(1)[OF P0]])
    qed
    have fin: "\<exists>a b h.
                 node out ''power_out_A'' k = Some (Finite a) \<and>
                 node out ''power_out_B'' k = Some (Finite b) \<and>
                 node out ''heat_out'' k = Some (Finite h)"
      if p: "\<bar>?p\<bar> \<le> 2 ^ 1022"
    proof (cases "?p < ?s")
      case True
      with fixed_A_fin[OF p eta] heat_fin[OF p eta] nA nB nH show ?thesis
        by auto
    next
      case False
      with sp0 have s: "0 \<le> ?s" "?s \<le> ?p"
        by simp_all
      then have "\<bar>?s\<bar> \<le> 2 ^ 1022"
        using p by linarith
      from fixed_A_fin[OF this eta] fixed_B_fin[OF p s eta] heat_fin[OF p eta] nA nB nH False
      show ?thesis
        by auto
    qed
    from c bound fin show ?thesis
      by blast
  qed
qed

theorem energy_conservation_rounded_witness:
  "(rule (initialize\<lparr>efficiency := 0.625\<rparr>) = ''fraction'' \<or> rule (initialize\<lparr>efficiency := 0.625\<rparr>) = ''fixed'') \<and>
   conforms (fst (setup_comp (initialize\<lparr>efficiency := 0.625\<rparr>) new_component))
     [''power_in'' \<mapsto> [9007199254740991], ''power_rating'' \<mapsto> [1], ''power_split_fraction'' \<mapsto> [0.5]] \<and>
   (0::nat) < num_nodes (initialize\<lparr>efficiency := 0.625\<rparr>) \<and>
   0 \<le> efficiency (initialize\<lparr>efficiency := 0.625\<rparr>) \<and> efficiency (initialize\<lparr>efficiency := 0.625\<rparr>) \<le> 1 \<and>
   (0::real) \<le> [0.5] ! 0 \<and> [0.5::real] ! 0 \<le> 1 \<and>
   \<bar>[9007199254740991::real] ! 0\<bar> \<le> 2 ^ 1022 \<and>
   (\<exists>outputs' a b h.
      compute_f64 (initialize\<lparr>efficiency := 0.625\<rparr>)
        [''power_in'' \<mapsto> [9007199254740991], ''power_rating'' \<mapsto> [1], ''power_split_fraction'' \<mapsto> [0.5]]
        Map.empty = Some outputs' \<and>
      node outputs' ''power_out_A'' 0 = Some (Finite a) \<and>
      node outputs' ''power_out_B'' 0 = Some (Finite b) \<and>
      node outputs' ''heat_out'' 0 = Some (Finite h) \<and>
      \<bar>a + b + h - 9007199254740991\<bar> \<le> 9007199254740991 / 2 ^ 50 + 1 / 2 ^ 1070)"
proof -
  let ?opts = "(initialize\<lparr>efficiency := 0.625\<rparr>)"
  let ?inputs = "[''power_in'' \<mapsto> [9007199254740991::real], ''power_rating'' \<mapsto> [1],
                  ''power_split_fraction'' \<mapsto> [0.5]]"
  have h1: "rule ?opts = ''fraction'' \<or> rule ?opts = ''fixed''"
    by (simp add: initialize_def)
  have h2: "conforms (fst (setup_comp ?opts new_component)) ?inputs"
    by (simp add: conforms_def setup_inputs initialize_def)
  have h3: "?inputs ''power_in'' = Some [9007199254740991]"
    by simp
  have h4: "?inputs (if rule ?opts = ''fraction'' then ''power_split_fraction''
                     else ''power_split_amount'') = Some [0.5]"
    by (simp add: initialize_def)
  have h5: "(0::nat) < num_nodes ?opts"
    by (simp add: initialize_def)
  have h6: "0 \<le> efficiency ?opts" and h7: "efficiency ?opts \<le> 1"
    by simp_all
  have h8: "(0::real) \<le> [0.5] ! 0" and h9: "[0.5::real] ! 0 \<le> 1"
    by simp_all
  have h9': "rule ?opts = ''fraction'' \<longrightarrow> [0.5::real] ! 0 \<le> 1"
    by simp
  have h10: "\<bar>[9007199254740991::real] ! 0\<bar> \<le> 2 ^ 1022"
    by simp
  from energy_conservation_rounded[OF h1 h2 h3 h4 h5 h6 h7 h8 h9', of Map.empty]
  obtain outputs'
    where c: "compute_f64 ?opts ?inputs Map.empty = Some outputs'"
      and bound: "\<And>a b h.
          node outputs' ''power_out_A'' 0 = Some (Finite a) \<Longrightarrow>
          node outputs' ''power_out_B'' 0 = Some (Finite b) \<Longrightarrow>
          node outputs' ''heat_out'' 0 = Some (Finite h) \<Longrightarrow>
          \<bar>a + b + h - [9007199254740991] ! 0\<bar>
            \<le> \<bar>[9007199254740991] ! 0\<bar> / 2 ^ 50 + 1 / 2 ^ 1070"
      and fin: "\<bar>[9007199254740991::real] ! 0\<bar> \<le> 2 ^ 1022 \<Longrightarrow>
          \<exists>a b h.
            node outputs' ''power_out_A'' 0 = Some (Finite a) \<and>
            node outputs' ''power_out_B'' 0 = Some (Finite b) \<and>
            node outputs' ''heat_out'' 0 = Some (Finite h)"
    by blast
  from fin[OF h10] obtain a b h
    where n: "node outputs' ''power_out_A'' 0 = Some (Finite a)"
      "node outputs' ''power_out_B'' 0 = Some (Finite b)"
      "node outputs' ''heat_out'' 0 = Some (Finite h)"
    by blast
  from bound[OF n]
  have "\<bar>a + b + h - 9007199254740991\<bar> \<le> 9007199254740991 / 2 ^ 50 + 1 / 2 ^ 1070"
    by simp
  with c n have "\<exists>outputs' a b h.
      compute_f64 ?opts ?inputs Map.empty = Some outputs' \<and>
      node outputs' ''power_out_A'' 0 = Some (Finite a) \<and>
      node outputs' ''power_out_B'' 0 = Some (Finite b) \<and>
      node outputs' ''heat_out'' 0 = Some (Finite h) \<and>
      \<bar>a + b + h - 9007199254740991\<bar> \<le> 9007199254740991 / 2 ^ 50 + 1 / 2 ^ 1070"
    by blast
  with h1 h2 h5 h6 h7 h8 h9 h10 show ?thesis
    by (intro conjI)
qed

text \<open>
  Claim C1, as stated, fails: it has the sum equal to \<open>power_in\<close>, for any efficiency
  and every input vector. Under the rule \<open>fraction\<close>, with \<open>power_in = 2 ^ 53 - 1\<close>,
  the fraction 0.5 and the efficiency 0.625, all three float64 numbers and within their
  ranges, the outputs sum to \<open>power_in - 0.5\<close>, and to \<open>power_in - 1\<close> when the sum
  is formed in float64. With \<open>power_in = 100\<close>, the efficiency 0.5 and the fraction
  \<open>10 ^ 17\<close>, the outputs are \<open>5 * 10 ^ 18\<close>, \<open>- 5 * 10 ^ 18\<close> and 50, and sum to 50.
\<close>

theorem conservation_fails_in_float64:
  "compute_f64 (initialize\<lparr>efficiency := 0.625\<rparr>)
     [''power_in'' \<mapsto> [9007199254740991], ''power_rating'' \<mapsto> [1],
      ''power_split_fraction'' \<mapsto> [0.5]]
     Map.empty
   = Some [''power_out_A'' \<mapsto> [Finite 2814749767106559.5],
           ''power_out_B'' \<mapsto> [Finite 2814749767106559.5],
           ''heat_out'' \<mapsto> [Finite 3377699720527871.5],
           ''component_cost'' \<mapsto> [Finite 0],
           ''component_weight'' \<mapsto> [Finite 0],
           ''component_sizing_margin'' \<mapsto> [Finite 9007199254740991]] \<and>
   (2814749767106559.5 + 2814749767106559.5 + 3377699720527871.5 :: real)
     \<noteq> 9007199254740991 \<and>
   f_add (f_add (Finite 2814749767106559.5) (Finite 2814749767106559.5))
       (Finite 3377699720527871.5)
     = Finite 9007199254740990 \<and>
   compute_f64 (initialize\<lparr>efficiency := 0.5\<rparr>)
     [''power_in'' \<mapsto> [100], ''power_rating'' \<mapsto> [1],
      ''power_split_fraction'' \<mapsto> [100000000000000000]]
     Map.empty
   = Some [''power_out_A'' \<mapsto> [Finite 5000000000000000000],
           ''power_out_B'' \<mapsto> [Finite (- 5000000000000000000)],
           ''heat_out'' \<mapsto> [Finite 50],
           ''component_cost'' \<mapsto> [Finite 0],
           ''component_weight'' \<mapsto> [Finite 0],
           ''component_sizing_margin'' \<mapsto> [Finite 100]] \<and>
   (5000000000000000000 + (- 5000000000000000000) + 50 :: real) \<noteq> 100 \<and>
   f_add (f_add (Finite 5000000000000000000) (Finite (- 5000000000000000000))) (Finite 50)
     = Finite 50"
  by (simp add: compute_f64_def initialize_def Let_def np_binop_def f_div_def
      round64_values_a round64_values_b)

end
